theory Spec2Isabelle
  imports Complex_Main "HOL-Library.Sublist"
begin

section \<open>Data model\<close>

text \<open>
  The application keeps a GeoJSON feature collection of restroom facilities in the closure
  variable \<open>allRestroomData\<close> and the current filter facets in \<open>currentFilters\<close>.
  A feature's \<open>properties\<close> bag holds string attributes, any of which may be absent
  (\<open>undefined\<close>) or \<open>null\<close>; both are \<open>None\<close> here, since the code only ever joins such a
  field into a string or compares it with a string. Attributes the modelled functions
  never read (hours, website, notes, ...) are left out.
\<close>

record properties =
  facility_name :: "string option"
  operator :: "string option"
  location_type :: "string option"
  status :: "string option"
  accessibility :: "string option"

text \<open>
  JavaScript numbers: finite values are idealised as reals (rounding and overflow of
  IEEE doubles are not modelled, nor is the sign of zero); the three non-finite values
  are kept apart, because the nearest-facility scan starts from \<open>Infinity\<close> and its
  comparison is what decides how \<open>NaN\<close> behaves.
\<close>

datatype jsnum = NaN | NegInf | Fin real | PosInf

text \<open>A coordinate array element as the scan reads it.\<close>

datatype jsval = Undefined | Null | Number jsnum

text \<open>
  \<open>geometry\<close> may be \<open>null\<close> in GeoJSON; its \<open>coordinates\<close> member may be absent or
  \<open>null\<close> (\<open>None\<close>) or an array.
\<close>

datatype geometry = Geometry (coordinates: "jsval list option")

record feature =
  properties :: properties
  geometry :: "geometry option"

record featureCollection =
  features :: "feature list"

text \<open>
  \<open>currentFilters\<close>. Its members \<open>status\<close>, \<open>accessibility\<close> and \<open>locationType\<close> carry
  the suffix \<open>Filter\<close> here, the plain names being those of the properties.
\<close>

record filters =
  search :: string
  statusFilter :: string
  accessibilityFilter :: string
  locationTypeFilter :: string

datatype error = TypeError

section \<open>String primitives\<close>

text \<open>
  \<open>String.prototype.toLowerCase\<close> on the ASCII letters; every other character is kept.
\<close>

definition lowerChar :: "char \<Rightarrow> char" where
  "lowerChar c =
     (case map_of (zip ''ABCDEFGHIJKLMNOPQRSTUVWXYZ'' ''abcdefghijklmnopqrstuvwxyz'') c of
        Some d \<Rightarrow> d
      | None \<Rightarrow> c)"

definition toLowerCase :: "string \<Rightarrow> string" where
  "toLowerCase s = map lowerChar s"

text \<open>
  \<open>Array.prototype.join\<close>: \<open>undefined\<close> and \<open>null\<close> elements contribute the empty
  string.
\<close>

definition elemString :: "string option \<Rightarrow> string" where
  "elemString x = (case x of None \<Rightarrow> [] | Some s \<Rightarrow> s)"

fun join :: "string \<Rightarrow> string option list \<Rightarrow> string" where
  "join sep [] = []"
| "join sep [x] = elemString x"
| "join sep (x # y # ys) = elemString x @ sep @ join sep (y # ys)"

text \<open>\<open>String.prototype.includes\<close>: is \<open>pat\<close> a contiguous part of \<open>s\<close>?\<close>

fun includes_str :: "string \<Rightarrow> string \<Rightarrow> bool" where
  "includes_str [] pat = (pat = [])"
| "includes_str (c # cs) pat = (prefix pat (c # cs) \<or> includes_str cs pat)"

section \<open>Filter application\<close>

text \<open>
  The callback handed to \<open>Array.prototype.filter\<close> in \<open>applyFilters\<close> (the same text in
  both versions of the script); each early \<open>return false\<close> is one branch.
\<close>

definition filterCallback :: "filters \<Rightarrow> feature \<Rightarrow> bool" where
  "filterCallback currentFilters feature =
     (let props = properties feature in
      if search currentFilters \<noteq> [] \<and>
         \<not> includes_str
             (toLowerCase (join '' '' [facility_name props, operator props, location_type props]))
             (search currentFilters)
      then False
      else if statusFilter currentFilters \<noteq> ''all'' \<and>
              status props \<noteq> Some (statusFilter currentFilters)
      then False
      else if accessibilityFilter currentFilters \<noteq> ''all'' \<and>
              accessibility props \<noteq> Some (accessibilityFilter currentFilters)
      then False
      else if locationTypeFilter currentFilters \<noteq> ''all'' \<and>
              location_type props \<noteq> Some (locationTypeFilter currentFilters)
      then False
      else True)"

text \<open>
  What the page and the map show, next to the closure variables of \<open>initializeMap\<close>:
  \<open>restroomsSource\<close> is the data of the map source \<open>restrooms\<close> (set to the whole
  collection by \<open>setupMapLayers\<close>, then by every \<open>applyFilters\<close>), \<open>heatmapSource\<close> the
  data of the source \<open>heatmap-source\<close> (\<open>None\<close> while the layer is absent),
  \<open>toggleDisabled\<close> the \<open>disabled\<close> flag of the toggle button, \<open>pendingTimeouts\<close> the
  number of callbacks scheduled by \<open>setTimeout\<close> and not yet run, \<open>statistics\<close> the four
  counters of the statistics panel, \<open>console\<close> the lines this closure has written to
  the console. Of the console output only the three lines of \<open>generateCoverageHeatmap\<close>
  are kept, by their variable parts (\<open>Generating emergency zone analysis ...\<close>,
  \<open>Processing NxN grid ...\<close>, \<open>Generated n heatmap points\<close>): they are the trace every
  run of the sampler leaves. Button captions and the legend's visibility are not
  modelled.
\<close>

type_synonym cell = "jsnum \<times> jsnum \<times> jsnum"

datatype consoleLine = Generating | Processing nat | Generated nat

record stats =
  totalVisible :: nat
  operationalCount :: nat
  accessibleCount :: nat
  parkCount :: nat

record appState =
  allRestroomData :: "featureCollection option"
  currentFilters :: filters
  isHeatmapVisible :: bool
  heatmapData :: "cell list option"
  restroomsSource :: "feature list"
  heatmapSource :: "cell list option"
  toggleDisabled :: bool
  pendingTimeouts :: nat
  statistics :: stats
  console :: "consoleLine list"

text \<open>\<open>applyFilters\<close> of \<open>restroom-map.js\<close>.\<close>

definition applyFilters :: "appState \<Rightarrow> appState" where
  "applyFilters s =
     (case allRestroomData s of
        None \<Rightarrow> s
      | Some d \<Rightarrow>
          (let filteredFeatures = filter (filterCallback (currentFilters s)) (features d)
           in s\<lparr>restroomsSource := filteredFeatures\<rparr>))"

section \<open>Statistics\<close>

text \<open>
  \<open>updateStatistics(features = null)\<close> of the earlier version of the script:
  \<open>features || allRestroomData.features\<close> takes the argument when one is given (an
  empty array is truthy) and reads the store otherwise, which throws while the store is
  still \<open>null\<close>.
\<close>

definition updateStatistics :: "feature list option \<Rightarrow> appState \<Rightarrow> error + appState" where
  "updateStatistics fs s =
     (case (case fs of
              Some given \<Rightarrow> Inr given
            | None \<Rightarrow> (case allRestroomData s of None \<Rightarrow> Inl TypeError | Some d \<Rightarrow> Inr (features d)))
      of
        Inl e \<Rightarrow> Inl e
      | Inr data \<Rightarrow>
          (let operational = length (filter (\<lambda>f. status (properties f) = Some ''Operational'') data);
               accessible =
                 length (filter (\<lambda>f. accessibility (properties f) = Some ''Fully Accessible'') data);
               parks = length (filter (\<lambda>f. location_type (properties f) = Some ''Park'') data)
           in Inr (s\<lparr>statistics :=
                     \<lparr>totalVisible = length data, operationalCount = operational,
                      accessibleCount = accessible, parkCount = parks\<rparr>\<rparr>)))"

text \<open>\<open>applyFilters\<close> of the earlier version, which also refreshes the statistics.\<close>

definition applyFilters_stats :: "appState \<Rightarrow> error + appState" where
  "applyFilters_stats s =
     (case allRestroomData s of
        None \<Rightarrow> Inr s
      | Some d \<Rightarrow>
          (let filteredFeatures = filter (filterCallback (currentFilters s)) (features d)
           in updateStatistics (Some filteredFeatures) (s\<lparr>restroomsSource := filteredFeatures\<rparr>)))"

section \<open>Number primitives\<close>

fun jsNeg :: "jsnum \<Rightarrow> jsnum" where
  "jsNeg NaN = NaN"
| "jsNeg NegInf = PosInf"
| "jsNeg (Fin x) = Fin (- x)"
| "jsNeg PosInf = NegInf"

fun jsAdd :: "jsnum \<Rightarrow> jsnum \<Rightarrow> jsnum" where
  "jsAdd NaN b = NaN"
| "jsAdd a NaN = NaN"
| "jsAdd (Fin x) (Fin y) = Fin (x + y)"
| "jsAdd PosInf NegInf = NaN"
| "jsAdd NegInf PosInf = NaN"
| "jsAdd PosInf b = PosInf"
| "jsAdd a PosInf = PosInf"
| "jsAdd NegInf b = NegInf"
| "jsAdd a NegInf = NegInf"

definition jsSub :: "jsnum \<Rightarrow> jsnum \<Rightarrow> jsnum" where
  "jsSub a b = jsAdd a (jsNeg b)"

fun signOf :: "jsnum \<Rightarrow> real" where
  "signOf NaN = 0"
| "signOf NegInf = - 1"
| "signOf (Fin x) = sgn x"
| "signOf PosInf = 1"

fun jsMul :: "jsnum \<Rightarrow> jsnum \<Rightarrow> jsnum" where
  "jsMul NaN b = NaN"
| "jsMul a NaN = NaN"
| "jsMul (Fin x) (Fin y) = Fin (x * y)"
| "jsMul a b =
     (if signOf a * signOf b = 0 then NaN
      else if 0 < signOf a * signOf b then PosInf else NegInf)"

fun jsDiv :: "jsnum \<Rightarrow> jsnum \<Rightarrow> jsnum" where
  "jsDiv NaN b = NaN"
| "jsDiv a NaN = NaN"
| "jsDiv (Fin x) (Fin y) =
     (if y = 0 then (if x = 0 then NaN else if 0 < x then PosInf else NegInf)
      else Fin (x / y))"
| "jsDiv (Fin x) b = Fin 0"
| "jsDiv a (Fin y) = (if y < 0 then jsNeg a else a)"
| "jsDiv a b = NaN"

fun jsSqrt :: "jsnum \<Rightarrow> jsnum" where
  "jsSqrt NaN = NaN"
| "jsSqrt NegInf = NaN"
| "jsSqrt (Fin x) = (if x < 0 then NaN else Fin (sqrt x))"
| "jsSqrt PosInf = PosInf"

text \<open>The comparison \<open>a < b\<close>: false as soon as one side is \<open>NaN\<close>.\<close>

fun jsLess :: "jsnum \<Rightarrow> jsnum \<Rightarrow> bool" where
  "jsLess NaN b = False"
| "jsLess a NaN = False"
| "jsLess (Fin x) (Fin y) = (x < y)"
| "jsLess a NegInf = False"
| "jsLess PosInf b = False"
| "jsLess NegInf b = True"
| "jsLess a PosInf = True"

fun mathMin :: "jsnum \<Rightarrow> jsnum \<Rightarrow> jsnum" where
  "mathMin NaN b = NaN"
| "mathMin a NaN = NaN"
| "mathMin a b = (if jsLess b a then b else a)"

text \<open>
  \<open>Math.pow(b, y)\<close> for a finite exponent \<open>y\<close> that is positive and not an integer, the
  only kind the script uses (\<open>0.6\<close>).
\<close>

fun mathPow :: "jsnum \<Rightarrow> real \<Rightarrow> jsnum" where
  "mathPow NaN y = NaN"
| "mathPow NegInf y = PosInf"
| "mathPow (Fin x) y = (if x < 0 then NaN else Fin (x powr y))"
| "mathPow PosInf y = PosInf"

text \<open>The numeric conversion that \<open>-\<close> applies to its operands.\<close>

fun toNumber :: "jsval \<Rightarrow> jsnum" where
  "toNumber Undefined = NaN"
| "toNumber Null = Fin 0"
| "toNumber (Number n) = n"

section \<open>Coverage heat map\<close>

definition calculateFastDistance :: "jsval \<Rightarrow> jsval \<Rightarrow> jsval \<Rightarrow> jsval \<Rightarrow> jsnum" where
  "calculateFastDistance lat1 lng1 lat2 lng2 =
     (let dLat = jsMul (jsSub (toNumber lat2) (toNumber lat1)) (Fin 111000);
          dLng = jsMul (jsSub (toNumber lng2) (toNumber lng1)) (Fin 85000)
      in jsSqrt (jsAdd (jsMul dLat dLat) (jsMul dLng dLng)))"

text \<open>Reading an array index: \<open>undefined\<close> past the end.\<close>

definition elementAt :: "jsval list \<Rightarrow> nat \<Rightarrow> jsval" where
  "elementAt a i = (if i < length a then a ! i else Undefined)"

text \<open>
  \<open>allRestroomData.features.map(restroom => restroom.geometry.coordinates)\<close>: reading
  \<open>coordinates\<close> of a \<open>null\<close> geometry throws.
\<close>

fun restroomCoords :: "feature list \<Rightarrow> error + jsval list option list" where
  "restroomCoords [] = Inr []"
| "restroomCoords (restroom # rest) =
     (case geometry restroom of
        None \<Rightarrow> Inl TypeError
      | Some g \<Rightarrow>
          (case restroomCoords rest of
             Inl e \<Rightarrow> Inl e
           | Inr cs \<Rightarrow> Inr (coordinates g # cs)))"

text \<open>
  The \<open>for (const coords of restroomCoords)\<close> loop, \<open>minDistance\<close> being its
  accumulator. Destructuring \<open>[rLng, rLat] = coords\<close> throws when \<open>coords\<close> is not an
  array.
\<close>

fun nearestScan :: "jsval \<Rightarrow> jsval \<Rightarrow> jsnum \<Rightarrow> jsval list option list \<Rightarrow> error + jsnum" where
  "nearestScan lat lng minDistance [] = Inr minDistance"
| "nearestScan lat lng minDistance (coords # rest) =
     (case coords of
        None \<Rightarrow> Inl TypeError
      | Some arr \<Rightarrow>
          (let rLng = elementAt arr 0;
               rLat = elementAt arr 1;
               distance = calculateFastDistance lat lng rLat rLng
           in nearestScan lat lng (if jsLess distance minDistance then distance else minDistance)
                rest))"

record bounds =
  north :: real
  south :: real
  east :: real
  west :: real

definition nycBounds :: bounds where
  "nycBounds = \<lparr>north = 40.925, south = 40.470, east = - 73.680, west = - 74.280\<rparr>"

definition gridSize :: nat where
  "gridSize = 100"

definition maxDistance :: real where
  "maxDistance = 1000"

definition latStep :: "bounds \<Rightarrow> nat \<Rightarrow> real" where
  "latStep b n = (north b - south b) / real n"

definition lngStep :: "bounds \<Rightarrow> nat \<Rightarrow> real" where
  "lngStep b n = (east b - west b) / real n"

text \<open>The two assignments to \<open>intensity\<close>.\<close>

definition intensityOf :: "jsnum \<Rightarrow> jsnum" where
  "intensityOf minDistance =
     (let intensity = mathMin (jsDiv minDistance (Fin maxDistance)) (Fin 1)
      in mathPow intensity 0.6)"

text \<open>
  The nested \<open>for\<close> loops over \<open>j\<close> and \<open>i\<close>, with the bounds \<open>b\<close> and the grid size
  \<open>n\<close> as parameters; \<open>pts\<close> is \<open>heatmapPoints\<close>, each point being
  \<open>[lng, lat, intensity]\<close>. The step sizes are only ever used with \<open>0 < n\<close>.
\<close>

function loopJ ::
  "bounds \<Rightarrow> nat \<Rightarrow> jsval list option list \<Rightarrow> nat \<Rightarrow> nat \<Rightarrow> cell list \<Rightarrow> error + cell list" where
  "loopJ b n rc i j pts =
     (if j < n then
        (case nearestScan (Number (Fin (south b + real i * latStep b n)))
                (Number (Fin (west b + real j * lngStep b n))) PosInf rc of
           Inl e \<Rightarrow> Inl e
         | Inr minDistance \<Rightarrow>
             loopJ b n rc i (j + 1)
               (pts @ [(Fin (west b + real j * lngStep b n),
                        Fin (south b + real i * latStep b n),
                        intensityOf minDistance)]))
      else Inr pts)"
  by pat_completeness auto
termination
  by (relation "measure (\<lambda>(b, n, rc, i, j, pts). n - j)") auto

declare loopJ.simps [simp del]

function loopI ::
  "bounds \<Rightarrow> nat \<Rightarrow> jsval list option list \<Rightarrow> nat \<Rightarrow> cell list \<Rightarrow> error + cell list" where
  "loopI b n rc i pts =
     (if i < n then
        (case loopJ b n rc i 0 pts of
           Inl e \<Rightarrow> Inl e
         | Inr pts' \<Rightarrow> loopI b n rc (i + 1) pts')
      else Inr pts)"
  by pat_completeness auto
termination
  by (relation "measure (\<lambda>(b, n, rc, i, pts). n - i)") auto

declare loopI.simps [simp del]

text \<open>
  \<open>generateCoverageHeatmap\<close> reads the closure variables and assigns none; it returns
  \<open>undefined\<close> (\<open>None\<close>) while the store is \<open>null\<close>. The returned feature collection
  is a wrapper around \<open>heatmapPoints\<close>, which stands for it here.
\<close>

definition generateCoverageHeatmap :: "appState \<Rightarrow> error + cell list option" where
  "generateCoverageHeatmap s =
     (case allRestroomData s of
        None \<Rightarrow> Inr None
      | Some d \<Rightarrow>
          (case restroomCoords (features d) of
             Inl e \<Rightarrow> Inl e
           | Inr rc \<Rightarrow>
               (case loopI nycBounds gridSize rc 0 [] of
                  Inl e \<Rightarrow> Inl e
                | Inr heatmapPoints \<Rightarrow> Inr (Some heatmapPoints))))"

text \<open>\<open>console.log\<close>, for the lines that are kept.\<close>

definition consoleLog :: "consoleLine \<Rightarrow> appState \<Rightarrow> appState" where
  "consoleLog line s = s\<lparr>console := console s @ [line]\<rparr>"

text \<open>
  A call of \<open>generateCoverageHeatmap\<close> as the handlers make it, with the lines it writes
  where the function writes them: the first once the guard is passed, the second once the
  coordinates have been extracted, the third once the loops are done. The call returns
  the value (or the exception) and the state with those lines on the console.
\<close>

definition generateCoverageHeatmap_call ::
  "appState \<Rightarrow> (error + cell list option) \<times> appState" where
  "generateCoverageHeatmap_call s =
     (case allRestroomData s of
        None \<Rightarrow> (Inr None, s)
      | Some d \<Rightarrow>
          (let s1 = consoleLog Generating s in
           case restroomCoords (features d) of
             Inl e \<Rightarrow> (Inl e, s1)
           | Inr rc \<Rightarrow>
               (let s2 = consoleLog (Processing gridSize) s1 in
                case loopI nycBounds gridSize rc 0 [] of
                  Inl e \<Rightarrow> (Inl e, s2)
                | Inr heatmapPoints \<Rightarrow>
                    (Inr (Some heatmapPoints),
                     consoleLog (Generated (length heatmapPoints)) s2))))"

text \<open>The lines one call writes, as a function of the state it starts in.\<close>

definition generateCoverageHeatmap_console :: "appState \<Rightarrow> consoleLine list" where
  "generateCoverageHeatmap_console s =
     (case allRestroomData s of
        None \<Rightarrow> []
      | Some d \<Rightarrow>
          Generating #
          (case restroomCoords (features d) of
             Inl e \<Rightarrow> []
           | Inr rc \<Rightarrow>
               Processing gridSize #
               (case loopI nycBounds gridSize rc 0 [] of
                  Inl e \<Rightarrow> []
                | Inr heatmapPoints \<Rightarrow> [Generated (length heatmapPoints)])))"

section \<open>Toggling the heat map\<close>

text \<open>
  \<open>addHeatmapLayer\<close> does nothing without data; otherwise it replaces the source and the
  layer by one feature per point, carrying the point's position and intensity. The list
  of points stands for that collection.
\<close>

definition addHeatmapLayer :: "appState \<Rightarrow> appState" where
  "addHeatmapLayer s =
     (case heatmapData s of
        None \<Rightarrow> s
      | Some heatmapPoints \<Rightarrow> s\<lparr>heatmapSource := Some heatmapPoints\<rparr>)"

definition removeHeatmapLayer :: "appState \<Rightarrow> appState" where
  "removeHeatmapLayer s = s\<lparr>heatmapSource := None\<rparr>"

text \<open>
  The click handler. Its first branch only disables the button and schedules the
  callback below; the other two run to completion.
\<close>

definition toggleHeatmap :: "appState \<Rightarrow> appState" where
  "toggleHeatmap s =
     (if \<not> isHeatmapVisible s then
        (if heatmapData s = None then
           s\<lparr>toggleDisabled := True, pendingTimeouts := pendingTimeouts s + 1\<rparr>
         else (addHeatmapLayer s)\<lparr>isHeatmapVisible := True\<rparr>)
      else (removeHeatmapLayer s)\<lparr>isHeatmapVisible := False\<rparr>)"

text \<open>
  The callback given to \<open>setTimeout\<close>. When \<open>generateCoverageHeatmap\<close> throws, the
  assignment and everything after it are skipped: the exception leaves the callback with
  the state as the call left it.
\<close>

definition toggleTimeout :: "appState \<Rightarrow> (error \<times> appState) + appState" where
  "toggleTimeout s =
     (case generateCoverageHeatmap_call s of
        (Inl e, s1) \<Rightarrow> Inl (e, s1)
      | (Inr h, s1) \<Rightarrow>
          Inr ((addHeatmapLayer (s1\<lparr>heatmapData := h\<rparr>))
                 \<lparr>isHeatmapVisible := True, toggleDisabled := False\<rparr>))"

section \<open>Event handlers\<close>

definition resetAllFilters :: "appState \<Rightarrow> appState" where
  "resetAllFilters s =
     applyFilters
       (s\<lparr>currentFilters :=
            \<lparr>search = [], statusFilter = ''all'', accessibilityFilter = ''all'',
             locationTypeFilter = ''all''\<rparr>\<rparr>)"

text \<open>
  The listeners registered by \<open>setupEventListeners\<close>, which runs once the data has been
  stored, and the timer. A disabled button receives no click; an exception escaping the
  timer callback ends that callback only. The handlers that only move the map
  (\<open>fitMapToData\<close>, \<open>findNearMe\<close>) touch none of the state and are left out; the
  \<open>r\<close> key does what the reset button does.
\<close>

datatype event =
    SearchInput string
  | StatusChange string
  | AccessibilityChange string
  | LocationTypeChange string
  | ResetClick
  | EscapeKey
  | ToggleClick
  | TimeoutFires

fun dispatch :: "event \<Rightarrow> appState \<Rightarrow> appState" where
  "dispatch (SearchInput v) s =
     applyFilters (s\<lparr>currentFilters := (currentFilters s)\<lparr>search := toLowerCase v\<rparr>\<rparr>)"
| "dispatch (StatusChange v) s =
     applyFilters (s\<lparr>currentFilters := (currentFilters s)\<lparr>statusFilter := v\<rparr>\<rparr>)"
| "dispatch (AccessibilityChange v) s =
     applyFilters (s\<lparr>currentFilters := (currentFilters s)\<lparr>accessibilityFilter := v\<rparr>\<rparr>)"
| "dispatch (LocationTypeChange v) s =
     applyFilters (s\<lparr>currentFilters := (currentFilters s)\<lparr>locationTypeFilter := v\<rparr>\<rparr>)"
| "dispatch ResetClick s = resetAllFilters s"
| "dispatch EscapeKey s =
     applyFilters (s\<lparr>currentFilters := (currentFilters s)\<lparr>search := []\<rparr>\<rparr>)"
| "dispatch ToggleClick s = (if toggleDisabled s then s else toggleHeatmap s)"
| "dispatch TimeoutFires s =
     (if pendingTimeouts s = 0 then s
      else
        (case toggleTimeout (s\<lparr>pendingTimeouts := pendingTimeouts s - 1\<rparr>) of
           Inl (e, s1) \<Rightarrow> s1
         | Inr s' \<Rightarrow> s'))"

fun run :: "event list \<Rightarrow> appState \<Rightarrow> appState" where
  "run [] s = s"
| "run (e # es) s = run es (dispatch e s)"

section \<open>The page\<close>

text \<open>
  Everything above lives in one run of \<open>initializeMap\<close>. The page can run it again
  without reloading: the Change Token button (\<open>addTokenControls\<close>) brings the token form
  back and calls \<open>setupTokenInput\<close>, whose submit handler calls \<open>initializeMap\<close> with
  the new token. The new run has closure variables of its own, initialised afresh, and a
  map of its own; once its data has arrived, \<open>setupEventListeners\<close> adds its listeners to
  the same page elements, next to those of the earlier runs. The toggle button, and so
  its \<open>disabled\<close> flag, is shared.

  \<open>loadedClosure data\<close> is a run of \<open>initializeMap\<close> at the moment its
  \<open>loadRestroomData\<close> has stored \<open>data\<close>, filled the map source and registered the
  listeners. The statistics panel belongs to the earlier version of the script and stays
  blank.
\<close>

definition loadedClosure :: "featureCollection \<Rightarrow> appState" where
  "loadedClosure data =
     \<lparr>allRestroomData = Some data,
      currentFilters =
        \<lparr>search = [], statusFilter = ''all'', accessibilityFilter = ''all'',
         locationTypeFilter = ''all''\<rparr>,
      isHeatmapVisible = False, heatmapData = None, restroomsSource = features data,
      heatmapSource = None, toggleDisabled = False, pendingTimeouts = 0,
      statistics =
        \<lparr>totalVisible = 0, operationalCount = 0, accessibleCount = 0, parkCount = 0\<rparr>,
      console = []\<rparr>"

text \<open>
  The page: the runs of \<open>initializeMap\<close> whose listeners are registered, oldest first,
  and the flag of the shared button. \<open>toggleDisabled\<close> of a closure is what its handler
  reads and writes of that flag: \<open>deliver\<close> copies the flag in before the handler runs
  and out after it.
\<close>

record page =
  closures :: "appState list"
  buttonDisabled :: bool

definition deliver :: "(appState \<Rightarrow> appState) \<Rightarrow> nat \<Rightarrow> page \<Rightarrow> page" where
  "deliver handler k p =
     (if k < length (closures p) then
        (let c = handler ((closures p ! k)\<lparr>toggleDisabled := buttonDisabled p\<rparr>)
         in p\<lparr>closures := (closures p)[k := c], buttonDisabled := toggleDisabled c\<rparr>)
      else p)"

text \<open>The listeners of one element run in the order of their registration.\<close>

definition deliverAll :: "(appState \<Rightarrow> appState) \<Rightarrow> page \<Rightarrow> page" where
  "deliverAll handler p = fold (deliver handler) [0..<length (closures p)] p"

text \<open>
  What happens on the page: an event on one of its elements, which every registered
  listener receives; the timer of closure \<open>k\<close> coming due; and a change of token carried
  through (the dialog confirmed, a valid token submitted, the new map loaded, the fetch
  answered with \<open>data\<close>). A disabled button receives no click, but a click under way
  reaches all its listeners. \<open>OnPage TimeoutFires\<close> is no event of the page.
\<close>

datatype pageEvent = OnPage event | Timer nat | ChangeToken featureCollection

fun pageDispatch :: "pageEvent \<Rightarrow> page \<Rightarrow> page" where
  "pageDispatch (OnPage ToggleClick) p =
     (if buttonDisabled p then p else deliverAll toggleHeatmap p)"
| "pageDispatch (OnPage TimeoutFires) p = p"
| "pageDispatch (OnPage e) p = deliverAll (dispatch e) p"
| "pageDispatch (Timer k) p = deliver (dispatch TimeoutFires) k p"
| "pageDispatch (ChangeToken data) p =
     p\<lparr>closures := closures p @ [(loadedClosure data)\<lparr>toggleDisabled := buttonDisabled p\<rparr>]\<rparr>"

fun pageRun :: "pageEvent list \<Rightarrow> page \<Rightarrow> page" where
  "pageRun [] p = p"
| "pageRun (e # es) p = pageRun es (pageDispatch e p)"

text \<open>The page once the script has started with a stored token and its data has arrived.\<close>

definition startPage :: "featureCollection \<Rightarrow> page" where
  "startPage data = \<lparr>closures = [loadedClosure data], buttonDisabled = False\<rparr>"

section \<open>Notions used to state the properties\<close>

text \<open>
  The filter as the specification words it: four predicates, all of which must hold. The
  searchable text is name, operator and location type, absent ones empty, with single
  spaces between them, lower-cased.
\<close>

definition spec_searchableText :: "properties \<Rightarrow> string" where
  "spec_searchableText p =
     toLowerCase (elemString (facility_name p) @ '' '' @ elemString (operator p) @ '' '' @
                  elemString (location_type p))"

definition spec_facet :: "string \<Rightarrow> string option \<Rightarrow> bool" where
  "spec_facet flt v = (flt = ''all'' \<or> v = Some flt)"

definition spec_matches :: "filters \<Rightarrow> feature \<Rightarrow> bool" where
  "spec_matches q f =
     ((search q \<noteq> [] \<longrightarrow> sublist (search q) (spec_searchableText (properties f))) \<and>
      spec_facet (statusFilter q) (status (properties f)) \<and>
      spec_facet (accessibilityFilter q) (accessibility (properties f)) \<and>
      spec_facet (locationTypeFilter q) (location_type (properties f)))"

text \<open>
  \<open>q'\<close> tightens one facet of \<open>q\<close>: a categorical filter leaves \<open>all\<close>, or the search
  string gets longer and still contains the old one.
\<close>

definition tightens :: "filters \<Rightarrow> filters \<Rightarrow> bool" where
  "tightens q q' =
     ((statusFilter q = ''all'' \<and> q' = q\<lparr>statusFilter := statusFilter q'\<rparr>) \<or>
      (accessibilityFilter q = ''all'' \<and> q' = q\<lparr>accessibilityFilter := accessibilityFilter q'\<rparr>) \<or>
      (locationTypeFilter q = ''all'' \<and> q' = q\<lparr>locationTypeFilter := locationTypeFilter q'\<rparr>) \<or>
      (length (search q) < length (search q') \<and> sublist (search q) (search q') \<and>
       q' = q\<lparr>search := search q'\<rparr>))"

text \<open>A feature the scan can read: a geometry with a coordinate array, whatever it holds.\<close>

definition hasCoordinateArray :: "feature \<Rightarrow> bool" where
  "hasCoordinateArray f = (case geometry f of None \<Rightarrow> False | Some g \<Rightarrow> coordinates g \<noteq> None)"

text \<open>
  A coordinate array whose longitude and latitude are numbers (of any kind, \<open>NaN\<close> and
  the infinities included) or absent, but not \<open>null\<close>.
\<close>

definition numericArray :: "jsval list option \<Rightarrow> bool" where
  "numericArray c =
     (case c of
        None \<Rightarrow> False
      | Some arr \<Rightarrow> elementAt arr 0 \<noteq> Null \<and> elementAt arr 1 \<noteq> Null)"

definition numericCoordinates :: "feature \<Rightarrow> bool" where
  "numericCoordinates f =
     (case geometry f of None \<Rightarrow> False | Some g \<Rightarrow> numericArray (coordinates g))"

text \<open>The position of a valid record: both coordinates finite numbers.\<close>

definition finitePosition :: "jsval list option \<Rightarrow> (real \<times> real) option" where
  "finitePosition c =
     (case c of
        None \<Rightarrow> None
      | Some arr \<Rightarrow>
          (case (elementAt arr 0, elementAt arr 1) of
             (Number (Fin rLng), Number (Fin rLat)) \<Rightarrow> Some (rLng, rLat)
           | _ \<Rightarrow> None))"

text \<open>The fast planar distance in metres from \<open>(lat, lng)\<close> to a position \<open>(rLng, rLat)\<close>.\<close>

definition planarDistance :: "real \<Rightarrow> real \<Rightarrow> real \<times> real \<Rightarrow> real" where
  "planarDistance lat lng p =
     sqrt (((snd p - lat) * 111000)\<^sup>2 + ((fst p - lng) * 85000)\<^sup>2)"

text \<open>The least planar distance over the valid records, \<open>Infinity\<close> when there is none.\<close>

definition nearestValid :: "real \<Rightarrow> real \<Rightarrow> jsval list option list \<Rightarrow> jsnum" where
  "nearestValid lat lng rc =
     (let ds = map (planarDistance lat lng) (List.map_filter finitePosition rc)
      in if ds = [] then PosInf else Fin (Min (set ds)))"

fun minWith :: "jsnum \<Rightarrow> real list \<Rightarrow> jsnum" where
  "minWith m [] = m"
| "minWith m (d # ds) = minWith (if jsLess (Fin d) m then Fin d else m) ds"

text \<open>What the scan leaves in \<open>minDistance\<close> for a grid point, when it does not throw.\<close>

definition scanValue :: "real \<Rightarrow> real \<Rightarrow> jsval list option list \<Rightarrow> jsnum" where
  "scanValue lat lng rc =
     (case nearestScan (Number (Fin lat)) (Number (Fin lng)) PosInf rc of
        Inl e \<Rightarrow> NaN
      | Inr d \<Rightarrow> d)"

text \<open>Longitude and latitude of grid point \<open>(i, j)\<close>.\<close>

definition gridLng :: "bounds \<Rightarrow> nat \<Rightarrow> nat \<Rightarrow> real" where
  "gridLng b n j = west b + real j * ((east b - west b) / real n)"

definition gridLat :: "bounds \<Rightarrow> nat \<Rightarrow> nat \<Rightarrow> real" where
  "gridLat b n i = south b + real i * ((north b - south b) / real n)"

definition cellAt :: "bounds \<Rightarrow> nat \<Rightarrow> jsval list option list \<Rightarrow> nat \<Rightarrow> nat \<Rightarrow> cell" where
  "cellAt b n rc i j =
     (Fin (gridLng b n j), Fin (gridLat b n i),
      intensityOf (scanValue (gridLat b n i) (gridLng b n j) rc))"

definition gridRow :: "bounds \<Rightarrow> nat \<Rightarrow> jsval list option list \<Rightarrow> nat \<Rightarrow> cell list" where
  "gridRow b n rc i = map (cellAt b n rc i) [0..<n]"

definition intensity :: "cell \<Rightarrow> jsnum" where
  "intensity c = snd (snd c)"

definition unitInterval :: "jsnum \<Rightarrow> bool" where
  "unitInterval v = (case v of Fin x \<Rightarrow> 0 \<le> x \<and> x \<le> 1 | _ \<Rightarrow> False)"

definition distanceLike :: "jsnum \<Rightarrow> bool" where
  "distanceLike m = (case m of Fin x \<Rightarrow> 0 \<le> x | PosInf \<Rightarrow> True | _ \<Rightarrow> False)"

text \<open>
  The phases of the heat map's life. \<open>freshlyLoaded\<close> is the state in which the listeners
  are registered: the data is stored, the closure variables \<open>heatmapData\<close> and
  \<open>isHeatmapVisible\<close> still hold their initial values, the button is enabled and no timer
  is pending. \<open>waiting\<close>: the button has been clicked and the callback is due. \<open>cached\<close>:
  the grid has been stored. \<open>stuck\<close>: the callback threw, leaving the button disabled.
\<close>

definition freshlyLoaded :: "appState \<Rightarrow> bool" where
  "freshlyLoaded s =
     (allRestroomData s \<noteq> None \<and> heatmapData s = None \<and> \<not> isHeatmapVisible s \<and>
      \<not> toggleDisabled s \<and> pendingTimeouts s = 0)"

definition waiting :: "appState \<Rightarrow> bool" where
  "waiting s =
     (allRestroomData s \<noteq> None \<and> heatmapData s = None \<and> toggleDisabled s \<and>
      pendingTimeouts s = 1)"

definition cached :: "appState \<Rightarrow> bool" where
  "cached s = (heatmapData s \<noteq> None \<and> \<not> toggleDisabled s \<and> pendingTimeouts s = 0)"

definition stuck :: "appState \<Rightarrow> bool" where
  "stuck s = (heatmapData s = None \<and> toggleDisabled s \<and> pendingTimeouts s = 0)"

text \<open>
  How many runs of the sampler a closure has on record, and how many the page has: each
  run that passes the guard writes its first line once.
\<close>

definition samplerRunsOf :: "appState \<Rightarrow> nat" where
  "samplerRunsOf c = count_list (console c) Generating"

definition samplerRuns :: "page \<Rightarrow> nat" where
  "samplerRuns p = sum_list (map samplerRunsOf (closures p))"

fun isChangeToken :: "pageEvent \<Rightarrow> bool" where
  "isChangeToken (ChangeToken data) = True"
| "isChangeToken e = False"

text \<open>A page with a single closure, and what that closure receives of the page's events.\<close>

definition pageOf :: "appState \<Rightarrow> page" where
  "pageOf c = \<lparr>closures = [c], buttonDisabled = toggleDisabled c\<rparr>"

fun closureEvents :: "pageEvent list \<Rightarrow> event list" where
  "closureEvents [] = []"
| "closureEvents (OnPage TimeoutFires # es) = closureEvents es"
| "closureEvents (OnPage e # es) = e # closureEvents es"
| "closureEvents (Timer 0 # es) = TimeoutFires # closureEvents es"
| "closureEvents (Timer (Suc k) # es) = closureEvents es"
| "closureEvents (ChangeToken data # es) = closureEvents es"

section \<open>Example data\<close>

definition centralPark :: feature where
  "centralPark =
     \<lparr>properties =
        \<lparr>facility_name = Some ''Central Park'', operator = None, location_type = Some ''Park'',
         status = Some ''Operational'', accessibility = Some ''Fully Accessible''\<rparr>,
      geometry = Some (Geometry (Some [Number (Fin (- 73.97)), Number (Fin 40.78)]))\<rparr>"

definition mottHaven :: feature where
  "mottHaven =
     \<lparr>properties =
        \<lparr>facility_name = Some ''Mott Haven Library'', operator = Some ''NYPL'',
         location_type = Some ''Library'', status = Some ''Not Operational'',
         accessibility = None\<rparr>,
      geometry = Some (Geometry (Some [Number NaN, Number (Fin 40.81)]))\<rparr>"

text \<open>The same place as \<open>centralPark\<close>, its coordinates replaced by \<open>null\<close>.\<close>

definition nullCoordinates :: feature where
  "nullCoordinates =
     \<lparr>properties =
        \<lparr>facility_name = Some ''Central Park'', operator = None, location_type = Some ''Park'',
         status = Some ''Operational'', accessibility = Some ''Fully Accessible''\<rparr>,
      geometry = Some (Geometry None)\<rparr>"

definition noFilters :: filters where
  "noFilters =
     \<lparr>search = [], statusFilter = ''all'', accessibilityFilter = ''all'',
      locationTypeFilter = ''all''\<rparr>"

text \<open>A state with a given store and filter setting, and no heat map yet.\<close>

definition exampleState :: "featureCollection option \<Rightarrow> filters \<Rightarrow> appState" where
  "exampleState store q =
     \<lparr>allRestroomData = store, currentFilters = q, isHeatmapVisible = False,
      heatmapData = None,
      restroomsSource = (case store of None \<Rightarrow> [] | Some d \<Rightarrow> features d),
      heatmapSource = None, toggleDisabled = False, pendingTimeouts = 0,
      statistics =
        \<lparr>totalVisible = 0, operationalCount = 0, accessibleCount = 0, parkCount = 0\<rparr>,
      console = []\<rparr>"

section \<open>The filter\<close>

lemma includes_str_sublist: "includes_str s pat \<longleftrightarrow> sublist pat s"
  by (induction s) (auto simp: sublist_Cons_right)

lemma filterCallback_spec: "filterCallback q f = spec_matches q f"
  by (auto simp: filterCallback_def spec_matches_def spec_facet_def spec_searchableText_def
      includes_str_sublist Let_def)

lemma spec_matches_tightens:
  assumes "tightens q q'" and "spec_matches q' f"
  shows "spec_matches q f"
proof (cases q; cases q')
  fix a b c d a' b' c' d' u u'
  assume q: "q = \<lparr>search = a, statusFilter = b, accessibilityFilter = c,
                   locationTypeFilter = d, \<dots> = u\<rparr>"
    and q': "q' = \<lparr>search = a', statusFilter = b', accessibilityFilter = c',
                   locationTypeFilter = d', \<dots> = u'\<rparr>"
  have tr: "sublist a a' \<Longrightarrow> sublist a' t \<Longrightarrow> sublist a t" for t
    using sublist_order.order_trans by blast
  from assms show ?thesis
    unfolding q q' tightens_def spec_matches_def spec_facet_def
    by (auto intro: tr)
qed

lemma length_filter_mono:
  "(\<And>x. x \<in> set xs \<Longrightarrow> P x \<Longrightarrow> Q x) \<Longrightarrow> length (filter P xs) \<le> length (filter Q xs)"
  by (induction xs) auto

section \<open>The grid loops\<close>

lemma restroomCoords_ok:
  "\<forall>f\<in>set fs. hasCoordinateArray f \<Longrightarrow>
   \<exists>rc. restroomCoords fs = Inr rc \<and> length rc = length fs \<and> (\<forall>c\<in>set rc. c \<noteq> None)"
  by (induction fs) (auto simp: hasCoordinateArray_def split: option.splits)

lemma nearestScan_ok:
  "\<forall>c\<in>set rc. c \<noteq> None \<Longrightarrow> \<exists>d. nearestScan lat lng m rc = Inr d"
  by (induction rc arbitrary: m) (auto simp: Let_def)

lemma scanValue_eq:
  "\<forall>c\<in>set rc. c \<noteq> None \<Longrightarrow>
   nearestScan (Number (Fin lat)) (Number (Fin lng)) PosInf rc = Inr (scanValue lat lng rc)"
  using nearestScan_ok [of rc "Number (Fin lat)" "Number (Fin lng)" PosInf]
  by (auto simp: scanValue_def)

lemma loopJ_eq:
  "\<forall>c\<in>set rc. c \<noteq> None \<Longrightarrow>
   loopJ b n rc i j pts = Inr (pts @ map (cellAt b n rc i) [j..<n])"
proof (induction b n rc i j pts rule: loopJ.induct)
  case (1 b n rc i j pts)
  show ?case
  proof (cases "j < n")
    case True
    have scan: "nearestScan (Number (Fin (south b + real i * latStep b n)))
                  (Number (Fin (west b + real j * lngStep b n))) PosInf rc
                = Inr (scanValue (south b + real i * latStep b n) (west b + real j * lngStep b n) rc)"
      using "1.prems" by (rule scanValue_eq)
    have step: "loopJ b n rc i j pts =
        loopJ b n rc i (j + 1)
         (pts @ [(Fin (west b + real j * lngStep b n), Fin (south b + real i * latStep b n),
            intensityOf (scanValue (south b + real i * latStep b n) (west b + real j * lngStep b n) rc))])"
      using True scan by (subst loopJ.simps) simp
    have ih: "loopJ b n rc i (j + 1)
         (pts @ [(Fin (west b + real j * lngStep b n), Fin (south b + real i * latStep b n),
            intensityOf (scanValue (south b + real i * latStep b n) (west b + real j * lngStep b n) rc))])
       = Inr ((pts @ [(Fin (west b + real j * lngStep b n), Fin (south b + real i * latStep b n),
            intensityOf (scanValue (south b + real i * latStep b n) (west b + real j * lngStep b n) rc))])
              @ map (cellAt b n rc i) [j + 1..<n])"
      using "1.IH" [OF True scan "1.prems"] .
    have "[j..<n] = j # [j + 1..<n]" using True by (simp add: upt_conv_Cons)
    then show ?thesis
      unfolding step ih by (simp add: cellAt_def gridLng_def gridLat_def latStep_def lngStep_def)
  next
    case False
    then show ?thesis by (subst loopJ.simps) simp
  qed
qed

lemma loopI_eq:
  "\<forall>c\<in>set rc. c \<noteq> None \<Longrightarrow>
   loopI b n rc i pts = Inr (pts @ concat (map (gridRow b n rc) [i..<n]))"
proof (induction b n rc i pts rule: loopI.induct)
  case (1 b n rc i pts)
  show ?case
  proof (cases "i < n")
    case True
    have row: "loopJ b n rc i 0 pts = Inr (pts @ gridRow b n rc i)"
      using "1.prems" by (simp add: loopJ_eq gridRow_def)
    have step: "loopI b n rc i pts = loopI b n rc (i + 1) (pts @ gridRow b n rc i)"
      using True row by (subst loopI.simps) simp
    have ih: "loopI b n rc (i + 1) (pts @ gridRow b n rc i)
        = Inr ((pts @ gridRow b n rc i) @ concat (map (gridRow b n rc) [i + 1..<n]))"
      using "1.IH" [OF True row "1.prems"] .
    have "[i..<n] = i # [i + 1..<n]" using True by (simp add: upt_conv_Cons)
    then show ?thesis unfolding step ih by simp
  next
    case False
    then show ?thesis by (subst loopI.simps) simp
  qed
qed

lemma length_rows: "length (concat (map (gridRow b n rc) [0..<m])) = m * n"
  by (induction m) (simp_all add: gridRow_def)

lemma nth_rows:
  "i < m \<Longrightarrow> j < n \<Longrightarrow> concat (map (gridRow b n rc) [0..<m]) ! (i * n + j) = cellAt b n rc i j"
proof (induction m)
  case 0
  then show ?case by simp
next
  case (Suc m)
  show ?case
  proof (cases "i < m")
    case True
    then have "i * n + j < m * n"
      using Suc.prems(2)
      by (metis add.commute add_less_cancel_left less_le_trans mult.commute mult_Suc_right mult_le_mono1 Suc_leI)
    with True Suc show ?thesis by (simp add: nth_append length_rows)
  next
    case False
    with Suc.prems have "i = m" by simp
    moreover have "gridRow b n rc m ! j = cellAt b n rc m j"
      using Suc.prems(2) by (simp add: gridRow_def)
    ultimately show ?thesis by (simp add: nth_append length_rows)
  qed
qed

section \<open>Distances and intensities\<close>

lemma jsSqrt_range: "jsSqrt a = NaN \<or> distanceLike (jsSqrt a)"
  by (cases a) (auto simp: distanceLike_def)

lemma calculateFastDistance_range:
  "calculateFastDistance a b c d = NaN \<or> distanceLike (calculateFastDistance a b c d)"
  unfolding calculateFastDistance_def Let_def by (rule jsSqrt_range)

lemma jsLess_distanceLike: "jsLess d m \<Longrightarrow> d = NaN \<or> distanceLike d \<Longrightarrow> d \<noteq> PosInf \<and> distanceLike d"
  by (cases d; cases m) (auto simp: distanceLike_def)

lemma nearestScan_Some:
  "nearestScan lat lng m (Some arr # rc) =
     nearestScan lat lng
       (if jsLess (calculateFastDistance lat lng (elementAt arr 1) (elementAt arr 0)) m
        then calculateFastDistance lat lng (elementAt arr 1) (elementAt arr 0) else m) rc"
  by (simp add: Let_def)

lemma nearestScan_distanceLike:
  "nearestScan lat lng m rc = Inr d \<Longrightarrow> distanceLike m \<Longrightarrow> distanceLike d"
proof (induction rc arbitrary: m)
  case Nil
  then show ?case by simp
next
  case (Cons c rc)
  from Cons.prems(1) obtain arr where c: "c = Some arr"
    by (cases c) auto
  let ?dist = "calculateFastDistance lat lng (elementAt arr 1) (elementAt arr 0)"
  let ?m' = "if jsLess ?dist m then ?dist else m"
  from Cons.prems(1) c have rest: "nearestScan lat lng ?m' rc = Inr d"
    by (simp only: nearestScan_Some)
  have "distanceLike ?m'"
    using Cons.prems(2) calculateFastDistance_range [of lat lng "elementAt arr 1" "elementAt arr 0"]
      jsLess_distanceLike [of ?dist m]
    by auto
  with rest show ?case by (rule Cons.IH)
qed

lemma scanValue_distanceLike:
  "\<forall>c\<in>set rc. c \<noteq> None \<Longrightarrow> distanceLike (scanValue lat lng rc)"
  using scanValue_eq [of rc lat lng]
    nearestScan_distanceLike [of "Number (Fin lat)" "Number (Fin lng)" PosInf rc]
  by (simp add: distanceLike_def)

lemma intensityOf_unit: "distanceLike d \<Longrightarrow> unitInterval (intensityOf d)"
  by (cases d)
     (auto simp: distanceLike_def unitInterval_def intensityOf_def maxDistance_def Let_def
        powr_le1)

lemma intensityOf_far: "intensityOf PosInf = Fin 1"
  by (simp add: intensityOf_def maxDistance_def)

lemma distance_finite:
  "calculateFastDistance (Number (Fin lat)) (Number (Fin lng)) (Number (Fin rLat)) (Number (Fin rLng))
   = Fin (planarDistance lat lng (rLng, rLat))"
  by (simp add: calculateFastDistance_def jsSub_def planarDistance_def power2_eq_square not_less)

lemma distance_not_finite:
  assumes "rLat \<noteq> Null" "rLng \<noteq> Null"
    and "\<not> (\<exists>x y. rLng = Number (Fin x) \<and> rLat = Number (Fin y))"
  shows "\<not> jsLess (calculateFastDistance (Number (Fin lat)) (Number (Fin lng)) rLat rLng) m"
proof -
  have "calculateFastDistance (Number (Fin lat)) (Number (Fin lng)) rLat rLng \<in> {NaN, PosInf}"
  proof (cases rLat)
    case Undefined
    then show ?thesis by (simp add: calculateFastDistance_def jsSub_def)
  next
    case Null
    with assms show ?thesis by simp
  next
    case (Number a)
    note lat = this
    show ?thesis
    proof (cases rLng)
      case Undefined
      then show ?thesis using lat
        by (cases a) (simp_all add: calculateFastDistance_def jsSub_def)
    next
      case Null
      with assms show ?thesis by simp
    next
      case (Number c)
      with lat assms(3) show ?thesis
        by (cases a; cases c) (simp_all add: calculateFastDistance_def jsSub_def)
    qed
  qed
  then show ?thesis by (cases m) auto
qed

lemma nearestScan_minWith:
  "\<forall>c\<in>set rc. numericArray c \<Longrightarrow>
   nearestScan (Number (Fin lat)) (Number (Fin lng)) m rc
   = Inr (minWith m (map (planarDistance lat lng) (List.map_filter finitePosition rc)))"
proof (induction rc arbitrary: m)
  case Nil
  then show ?case by (simp add: List.map_filter_simps)
next
  case (Cons c rc)
  from Cons.prems obtain arr where c: "c = Some arr"
    and nn: "elementAt arr 0 \<noteq> Null" "elementAt arr 1 \<noteq> Null"
    by (cases c) (auto simp: numericArray_def)
  from Cons.prems have rest: "\<forall>c\<in>set rc. numericArray c" by simp
  show ?case
  proof (cases "\<exists>x y. elementAt arr 0 = Number (Fin x) \<and> elementAt arr 1 = Number (Fin y)")
    case True
    then obtain x y where xy: "elementAt arr 0 = Number (Fin x)" "elementAt arr 1 = Number (Fin y)"
      by blast
    then have fp: "finitePosition c = Some (x, y)"
      by (simp add: finitePosition_def c)
    show ?thesis
      unfolding c nearestScan_Some xy distance_finite Cons.IH [OF rest]
      using fp by (simp add: List.map_filter_simps c)
  next
    case False
    then have fp: "finitePosition c = None"
      by (auto simp: finitePosition_def c split: jsval.splits jsnum.splits)
    have skip: "\<not> jsLess (calculateFastDistance (Number (Fin lat)) (Number (Fin lng))
                     (elementAt arr 1) (elementAt arr 0)) m"
      using nn False by (intro distance_not_finite) auto
    show ?thesis
      unfolding c nearestScan_Some Cons.IH [OF rest]
      using fp skip by (simp add: List.map_filter_simps c)
  qed
qed

lemma minWith_Fin: "minWith (Fin x) ds = Fin (Min (insert x (set ds)))"
proof (induction ds arbitrary: x)
  case Nil
  then show ?case by simp
next
  case (Cons d ds)
  have "Min (insert x (insert d (set ds))) = Min (insert (min d x) (set ds))"
    by (cases "set ds = {}") (simp_all add: min.assoc min.commute min.left_commute Min_insert2)
  then show ?case
    using Cons.IH [of d] Cons.IH [of x]
    by (auto simp: min_def insert_commute)
qed

lemma minWith_PosInf: "minWith PosInf ds = (if ds = [] then PosInf else Fin (Min (set ds)))"
  by (cases ds) (simp_all add: minWith_Fin)

lemma nearestScan_nearestValid:
  "\<forall>c\<in>set rc. numericArray c \<Longrightarrow>
   nearestScan (Number (Fin lat)) (Number (Fin lng)) PosInf rc = Inr (nearestValid lat lng rc)"
  by (simp add: nearestScan_minWith minWith_PosInf nearestValid_def Let_def)

section \<open>The life of the heat map\<close>

lemma applyFilters_frame:
  "allRestroomData (applyFilters s) = allRestroomData s"
  "heatmapData (applyFilters s) = heatmapData s"
  "isHeatmapVisible (applyFilters s) = isHeatmapVisible s"
  "toggleDisabled (applyFilters s) = toggleDisabled s"
  "pendingTimeouts (applyFilters s) = pendingTimeouts s"
  "heatmapSource (applyFilters s) = heatmapSource s"
  "console (applyFilters s) = console s"
  by (simp_all add: applyFilters_def Let_def split: option.splits)

lemma generate_store_only:
  "allRestroomData s = allRestroomData t \<Longrightarrow> generateCoverageHeatmap s = generateCoverageHeatmap t"
  by (simp add: generateCoverageHeatmap_def)

lemma console_store_only:
  "allRestroomData s = allRestroomData t \<Longrightarrow>
   generateCoverageHeatmap_console s = generateCoverageHeatmap_console t"
  by (simp add: generateCoverageHeatmap_console_def)

lemma generate_not_undefined:
  "allRestroomData s \<noteq> None \<Longrightarrow> generateCoverageHeatmap s \<noteq> Inr None"
  by (auto simp: generateCoverageHeatmap_def split: option.splits sum.splits)

text \<open>
  The call returns what \<open>generateCoverageHeatmap\<close> evaluates to, and only adds its lines
  to the console.
\<close>

lemma generateCoverageHeatmap_call_eq:
  "generateCoverageHeatmap_call s =
     (generateCoverageHeatmap s, s\<lparr>console := console s @ generateCoverageHeatmap_console s\<rparr>)"
  by (simp add: generateCoverageHeatmap_call_def generateCoverageHeatmap_def
      generateCoverageHeatmap_console_def consoleLog_def Let_def
      split: option.splits sum.splits)

text \<open>Each call that passes the guard writes the first line exactly once.\<close>

lemma console_Generating:
  "count_list (generateCoverageHeatmap_console s) Generating =
     (if allRestroomData s = None then 0 else 1)"
  by (simp add: generateCoverageHeatmap_console_def split: option.splits sum.splits)

text \<open>The timer callback, spelled out.\<close>

lemma timeout_fires:
  assumes "0 < pendingTimeouts s"
  shows "dispatch TimeoutFires s =
     (case generateCoverageHeatmap s of
        Inl e \<Rightarrow>
          s\<lparr>pendingTimeouts := pendingTimeouts s - 1,
            console := console s @ generateCoverageHeatmap_console s\<rparr>
      | Inr h \<Rightarrow>
          (addHeatmapLayer
             (s\<lparr>pendingTimeouts := pendingTimeouts s - 1,
                console := console s @ generateCoverageHeatmap_console s,
                heatmapData := h\<rparr>))
          \<lparr>isHeatmapVisible := True, toggleDisabled := False\<rparr>)"
proof -
  have g: "generateCoverageHeatmap (s\<lparr>pendingTimeouts := n\<rparr>) = generateCoverageHeatmap s" for n
    by (rule generate_store_only) simp
  have c: "generateCoverageHeatmap_console (s\<lparr>pendingTimeouts := n\<rparr>)
           = generateCoverageHeatmap_console s" for n
    by (rule console_store_only) simp
  show ?thesis
    using assms
    by (cases "generateCoverageHeatmap s")
       (simp_all add: toggleTimeout_def generateCoverageHeatmap_call_eq g c)
qed

lemma timeout_idle: "pendingTimeouts s = 0 \<Longrightarrow> dispatch TimeoutFires s = s"
  by simp

lemma dispatch_store: "allRestroomData (dispatch e s) = allRestroomData s"
proof (cases e)
  case TimeoutFires
  show ?thesis
  proof (cases "pendingTimeouts s = 0")
    case True
    with TimeoutFires show ?thesis by simp
  next
    case False
    then have p: "0 < pendingTimeouts s" by simp
    show ?thesis
      unfolding TimeoutFires timeout_fires [OF p]
      by (simp add: addHeatmapLayer_def split: sum.splits option.splits)
  qed
qed (auto simp: applyFilters_frame resetAllFilters_def toggleHeatmap_def addHeatmapLayer_def
        removeHeatmapLayer_def split: option.splits)

lemma run_store: "allRestroomData (run es s) = allRestroomData s"
  by (induction es arbitrary: s) (simp_all add: dispatch_store)

lemma dispatch_cached:
  "cached s \<Longrightarrow>
   cached (dispatch e s) \<and> heatmapData (dispatch e s) = heatmapData s \<and>
   samplerRunsOf (dispatch e s) = samplerRunsOf s"
  by (cases e)
     (auto simp: cached_def samplerRunsOf_def applyFilters_frame resetAllFilters_def
        toggleHeatmap_def addHeatmapLayer_def removeHeatmapLayer_def split: option.splits)

lemma dispatch_stuck:
  "stuck s \<Longrightarrow> stuck (dispatch e s) \<and> samplerRunsOf (dispatch e s) = samplerRunsOf s"
  by (cases e) (auto simp: stuck_def samplerRunsOf_def applyFilters_frame resetAllFilters_def)

lemma dispatch_waiting:
  assumes "waiting s"
  shows "(waiting (dispatch e s) \<and> samplerRunsOf (dispatch e s) = samplerRunsOf s) \<or>
         ((cached (dispatch e s) \<or> stuck (dispatch e s)) \<and>
          samplerRunsOf (dispatch e s) = samplerRunsOf s + 1)"
proof (cases e)
  case TimeoutFires
  from assms have p: "0 < pendingTimeouts s" and st: "allRestroomData s \<noteq> None"
    by (simp_all add: waiting_def)
  have n: "count_list (generateCoverageHeatmap_console s) Generating = 1"
    using st by (simp add: console_Generating)
  show ?thesis
  proof (cases "generateCoverageHeatmap s")
    case (Inl err)
    with assms n show ?thesis
      unfolding TimeoutFires timeout_fires [OF p]
      by (simp add: waiting_def stuck_def samplerRunsOf_def)
  next
    case (Inr h)
    moreover from st have "generateCoverageHeatmap s \<noteq> Inr None"
      by (rule generate_not_undefined)
    ultimately obtain g where "h = Some g" by (cases h) auto
    with Inr assms n show ?thesis
      unfolding TimeoutFires timeout_fires [OF p]
      by (simp add: waiting_def cached_def samplerRunsOf_def addHeatmapLayer_def)
  qed
qed (use assms in \<open>auto simp: waiting_def samplerRunsOf_def applyFilters_frame resetAllFilters_def\<close>)

lemma dispatch_fresh:
  "freshlyLoaded s \<Longrightarrow>
   (freshlyLoaded (dispatch e s) \<or> waiting (dispatch e s)) \<and>
   samplerRunsOf (dispatch e s) = samplerRunsOf s"
  by (cases e)
     (auto simp: freshlyLoaded_def waiting_def samplerRunsOf_def applyFilters_frame
        resetAllFilters_def toggleHeatmap_def)

lemma dispatch_fresh_other:
  "freshlyLoaded s \<Longrightarrow> e \<noteq> ToggleClick \<Longrightarrow> freshlyLoaded (dispatch e s)"
  by (cases e) (auto simp: freshlyLoaded_def applyFilters_frame resetAllFilters_def)

lemma run_fresh_other:
  "freshlyLoaded s \<Longrightarrow> ToggleClick \<notin> set es \<Longrightarrow> freshlyLoaded (run es s)"
  by (induction es arbitrary: s) (auto simp: dispatch_fresh_other)

lemma run_cached:
  "cached s \<Longrightarrow>
   cached (run es s) \<and> heatmapData (run es s) = heatmapData s \<and>
   samplerRunsOf (run es s) = samplerRunsOf s"
proof (induction es arbitrary: s)
  case Nil
  then show ?case by simp
next
  case (Cons e es)
  from dispatch_cached [OF Cons.prems, of e] Cons.IH [of "dispatch e s"]
  show ?case by simp
qed

lemma run_stuck: "stuck s \<Longrightarrow> stuck (run es s) \<and> samplerRunsOf (run es s) = samplerRunsOf s"
proof (induction es arbitrary: s)
  case Nil
  then show ?case by simp
next
  case (Cons e es)
  from dispatch_stuck [OF Cons.prems, of e] Cons.IH [of "dispatch e s"]
  show ?case by simp
qed

lemma run_phases:
  "freshlyLoaded s \<or> waiting s \<or> cached s \<or> stuck s \<Longrightarrow>
   freshlyLoaded (run es s) \<or> waiting (run es s) \<or> cached (run es s) \<or> stuck (run es s)"
proof (induction es arbitrary: s)
  case Nil
  then show ?case by simp
next
  case (Cons e es)
  from Cons.prems
  have "freshlyLoaded (dispatch e s) \<or> waiting (dispatch e s) \<or> cached (dispatch e s) \<or>
        stuck (dispatch e s)"
    using dispatch_fresh [of s e] dispatch_waiting [of s e] dispatch_cached [of s e]
      dispatch_stuck [of s e]
    by blast
  then show ?case using Cons.IH [of "dispatch e s"] by simp
qed

lemma runs_waiting: "waiting s \<Longrightarrow> samplerRunsOf (run es s) \<le> samplerRunsOf s + 1"
proof (induction es arbitrary: s)
  case Nil
  then show ?case by simp
next
  case (Cons e es)
  from dispatch_waiting [OF Cons.prems, of e]
  consider (w) "waiting (dispatch e s)" "samplerRunsOf (dispatch e s) = samplerRunsOf s"
    | (c) "cached (dispatch e s)" "samplerRunsOf (dispatch e s) = samplerRunsOf s + 1"
    | (s) "stuck (dispatch e s)" "samplerRunsOf (dispatch e s) = samplerRunsOf s + 1"
    by blast
  then show ?case
  proof cases
    case w
    with Cons.IH [of "dispatch e s"] show ?thesis by simp
  next
    case c
    with run_cached [of "dispatch e s" es] show ?thesis by simp
  next
    case s
    with run_stuck [of "dispatch e s" es] show ?thesis by simp
  qed
qed

lemma runs_fresh: "freshlyLoaded s \<Longrightarrow> samplerRunsOf (run es s) \<le> samplerRunsOf s + 1"
proof (induction es arbitrary: s)
  case Nil
  then show ?case by simp
next
  case (Cons e es)
  from dispatch_fresh [OF Cons.prems, of e]
  have same: "samplerRunsOf (dispatch e s) = samplerRunsOf s"
    and ph: "freshlyLoaded (dispatch e s) \<or> waiting (dispatch e s)"
    by blast+
  from ph show ?case
  proof
    assume "freshlyLoaded (dispatch e s)"
    with Cons.IH [of "dispatch e s"] same show ?thesis by simp
  next
    assume "waiting (dispatch e s)"
    with runs_waiting [of "dispatch e s" es] same show ?thesis by simp
  qed
qed

lemma first_toggle_caches:
  assumes "freshlyLoaded s" and "generateCoverageHeatmap s = Inr (Some g)"
  shows "heatmapData (run [ToggleClick, TimeoutFires] s) = Some g"
    and "heatmapSource (run [ToggleClick, TimeoutFires] s) = Some g"
    and "isHeatmapVisible (run [ToggleClick, TimeoutFires] s)"
    and "samplerRunsOf (run [ToggleClick, TimeoutFires] s) = samplerRunsOf s + 1"
proof -
  let ?w = "s\<lparr>toggleDisabled := True, pendingTimeouts := pendingTimeouts s + 1\<rparr>"
  from assms(1) have click: "dispatch ToggleClick s = ?w"
    by (simp add: freshlyLoaded_def toggleHeatmap_def)
  have p: "0 < pendingTimeouts ?w" by simp
  have g: "generateCoverageHeatmap ?w = Inr (Some g)"
    using assms(2) generate_store_only [of ?w s] by simp
  have c: "generateCoverageHeatmap_console ?w = generateCoverageHeatmap_console s"
    by (rule console_store_only) simp
  from assms(1) have n: "count_list (generateCoverageHeatmap_console s) Generating = 1"
    by (simp add: console_Generating freshlyLoaded_def)
  have "run [ToggleClick, TimeoutFires] s = dispatch TimeoutFires (dispatch ToggleClick s)"
    by simp
  then have r: "run [ToggleClick, TimeoutFires] s =
      (addHeatmapLayer
         (?w\<lparr>pendingTimeouts := pendingTimeouts ?w - 1,
             console := console ?w @ generateCoverageHeatmap_console s,
             heatmapData := Some g\<rparr>))
        \<lparr>isHeatmapVisible := True, toggleDisabled := False\<rparr>"
    by (simp only: click timeout_fires [OF p] g c sum.case)
  show "heatmapData (run [ToggleClick, TimeoutFires] s) = Some g"
    and "heatmapSource (run [ToggleClick, TimeoutFires] s) = Some g"
    and "isHeatmapVisible (run [ToggleClick, TimeoutFires] s)"
    and "samplerRunsOf (run [ToggleClick, TimeoutFires] s) = samplerRunsOf s + 1"
    unfolding r using n by (simp_all add: addHeatmapLayer_def samplerRunsOf_def)
qed

lemma run_append: "run (es @ es') s = run es' (run es s)"
  by (induction es arbitrary: s) simp_all

section \<open>Further facts about the sampler\<close>

lemma generate_grid:
  assumes "allRestroomData s = Some d" and "restroomCoords (features d) = Inr rc"
    and "\<forall>c\<in>set rc. c \<noteq> None"
  shows "generateCoverageHeatmap s =
           Inr (Some (concat (map (gridRow nycBounds gridSize rc) [0..<gridSize])))"
  using assms by (simp add: generateCoverageHeatmap_def loopI_eq)

lemma restroomCoords_numeric:
  "\<forall>f\<in>set fs. numericCoordinates f \<Longrightarrow>
   \<exists>rc. restroomCoords fs = Inr rc \<and> (\<forall>c\<in>set rc. numericArray c)"
  by (induction fs) (auto simp: numericCoordinates_def split: option.splits)

lemma numericArray_Some: "numericArray c \<Longrightarrow> c \<noteq> None"
  by (cases c) (simp_all add: numericArray_def)

lemma scanValue_nearestValid:
  "\<forall>c\<in>set rc. numericArray c \<Longrightarrow> scanValue lat lng rc = nearestValid lat lng rc"
  by (simp add: scanValue_def nearestScan_nearestValid)

lemma nearestScan_None:
  "None \<in> set rc \<Longrightarrow> nearestScan lat lng m rc = Inl TypeError"
  by (induction rc arbitrary: m) (auto simp: Let_def split: option.splits)

text \<open>A \<open>null\<close> inside a coordinate array is read as 0 and takes part in the minimum.\<close>

lemma null_element_counts:
  "nearestScan (Number (Fin 0)) (Number (Fin 0)) PosInf [Some [Null, Null]] = Inr (Fin 0)"
  by (simp add: elementAt_def calculateFastDistance_def jsSub_def)

lemma loopI_None:
  "0 < n \<Longrightarrow> None \<in> set rc \<Longrightarrow> loopI b n rc 0 pts = Inl TypeError"
  by (subst loopI.simps, subst loopJ.simps) (simp add: nearestScan_None)

lemma length_filter_count:
  "length (filter (\<lambda>x. f x = v) xs) = count_list (map f xs) v"
  by (induction xs) simp_all

lemma intensityOf_zero: "intensityOf (Fin 0) = Fin 0"
  by (simp add: intensityOf_def maxDistance_def)

lemma intensityOf_saturated: "maxDistance \<le> x \<Longrightarrow> intensityOf (Fin x) = Fin 1"
  by (auto simp: intensityOf_def maxDistance_def)

lemma cells_intensity:
  "c \<in> set (concat (map (gridRow b n rc) [0..<m])) \<Longrightarrow>
   \<exists>i j. intensity c = intensityOf (scanValue (gridLat b n i) (gridLng b n j) rc)"
  by (fastforce simp: gridRow_def cellAt_def intensity_def)

lemma loopI_layout:
  assumes "\<forall>c\<in>set rc. c \<noteq> None"
  shows "\<exists>cells. loopI b n rc 0 [] = Inr cells \<and> length cells = n * n \<and>
           (\<forall>i<n. \<forall>j<n. \<exists>v. cells ! (i * n + j) = (Fin (gridLng b n j), Fin (gridLat b n i), v))"
proof -
  let ?cells = "concat (map (gridRow b n rc) [0..<n])"
  have "loopI b n rc 0 [] = Inr ?cells"
    using assms by (simp add: loopI_eq)
  moreover have "length ?cells = n * n" by (rule length_rows)
  moreover have "\<exists>v. ?cells ! (i * n + j) = (Fin (gridLng b n j), Fin (gridLat b n i), v)"
    if "i < n" "j < n" for i j
    using that by (simp add: nth_rows cellAt_def)
  ultimately show ?thesis by blast
qed

lemma toggle_off_cached:
  "cached s \<Longrightarrow> isHeatmapVisible s \<Longrightarrow>
   heatmapSource (dispatch ToggleClick s) = None \<and>
   heatmapData (dispatch ToggleClick s) = heatmapData s"
  by (simp add: cached_def toggleHeatmap_def removeHeatmapLayer_def)

lemma Some_cached:
  "freshlyLoaded s \<or> waiting s \<or> cached s \<or> stuck s \<Longrightarrow> heatmapData s = Some g \<Longrightarrow> cached s"
  by (auto simp: freshlyLoaded_def waiting_def stuck_def)

section \<open>Several runs of \<open>initializeMap\<close> on one page\<close>

lemma deliverAll_pageOf: "deliverAll h (pageOf c) = pageOf (h c)"
  by (simp add: deliverAll_def deliver_def pageOf_def Let_def)

lemma deliver_pageOf_0: "deliver h 0 (pageOf c) = pageOf (h c)"
  by (simp add: deliver_def pageOf_def Let_def)

lemma deliver_pageOf_Suc: "deliver h (Suc k) (pageOf c) = pageOf c"
  by (simp add: deliver_def pageOf_def Let_def)

lemma pageRun_pageOf:
  "\<forall>e\<in>set es. \<not> isChangeToken e \<Longrightarrow> pageRun es (pageOf c) = pageOf (run (closureEvents es) c)"
proof (induction es arbitrary: c)
  case Nil
  then show ?case by simp
next
  case (Cons e es)
  then have rest: "\<forall>e\<in>set es. \<not> isChangeToken e" and e: "\<not> isChangeToken e"
    by simp_all
  show ?case
  proof (cases e)
    case (OnPage ev)
    show ?thesis
      by (cases ev)
         (simp_all add: OnPage deliverAll_pageOf Cons.IH [OF rest] pageOf_def [of c, symmetric],
          simp_all add: pageOf_def)
  next
    case (Timer k)
    show ?thesis
      by (cases k) (simp_all add: Timer deliver_pageOf_0 deliver_pageOf_Suc Cons.IH [OF rest])
  next
    case (ChangeToken d)
    with e show ?thesis by simp
  qed
qed


lemma startPage_pageOf: "startPage data = pageOf (loadedClosure data)"
  by (simp add: startPage_def pageOf_def loadedClosure_def)

lemma loadedClosure_fresh: "freshlyLoaded (loadedClosure data)"
  by (simp add: freshlyLoaded_def loadedClosure_def)

lemma loadedClosure_runs: "samplerRunsOf (loadedClosure data) = 0"
  by (simp add: samplerRunsOf_def loadedClosure_def)

lemma samplerRuns_pageOf: "samplerRuns (pageOf c) = samplerRunsOf c"
  by (simp add: samplerRuns_def pageOf_def)

lemma closureEvents_append: "closureEvents (es @ es') = closureEvents es @ closureEvents es'"
  by (induction es rule: closureEvents.induct) simp_all

lemma closureEvents_no_click:
  "OnPage ToggleClick \<notin> set es \<Longrightarrow> ToggleClick \<notin> set (closureEvents es)"
  by (induction es rule: closureEvents.induct) auto

lemma run_fresh_runs:
  "freshlyLoaded s \<Longrightarrow> ToggleClick \<notin> set es \<Longrightarrow> samplerRunsOf (run es s) = samplerRunsOf s"
proof (induction es arbitrary: s)
  case Nil
  then show ?case by simp
next
  case (Cons e es)
  then have "freshlyLoaded (dispatch e s)" "samplerRunsOf (dispatch e s) = samplerRunsOf s"
    using dispatch_fresh_other [of s e] dispatch_fresh [of s e] by auto
  with Cons.IH [of "dispatch e s"] Cons.prems show ?case by simp
qed

text \<open>The timer callback adds one run to the record whenever it runs with the data loaded.\<close>

lemma timeout_runs:
  "samplerRunsOf (dispatch TimeoutFires s) =
     samplerRunsOf s + (if 0 < pendingTimeouts s \<and> allRestroomData s \<noteq> None then 1 else 0)"
proof (cases "0 < pendingTimeouts s")
  case True
  show ?thesis
    unfolding timeout_fires [OF True]
    using True
    by (simp add: samplerRunsOf_def addHeatmapLayer_def console_Generating
        split: sum.splits option.splits)
next
  case False
  then show ?thesis by simp
qed

lemma toggleHeatmap_runs: "samplerRunsOf (toggleHeatmap s) = samplerRunsOf s"
  by (simp add: toggleHeatmap_def samplerRunsOf_def addHeatmapLayer_def removeHeatmapLayer_def
      split: option.splits)

text \<open>
  A second run of \<open>initializeMap\<close> beside a closure whose button is enabled: the next
  click reaches the new closure too, and its timer runs the sampler.
\<close>

lemma second_closure_samples:
  assumes "\<not> toggleDisabled c"
  shows "samplerRuns (pageRun [ChangeToken d, OnPage ToggleClick, Timer 1] (pageOf c))
         = samplerRunsOf c + 1"
proof -
  let ?n = "loadedClosure d"
  let ?w = "?n\<lparr>toggleDisabled := True, pendingTimeouts := 1\<rparr>"
  have p1: "pageDispatch (ChangeToken d) (pageOf c) = \<lparr>closures = [c, ?n], buttonDisabled = False\<rparr>"
    using assms by (simp add: pageOf_def loadedClosure_def)
  have new: "toggleHeatmap ?n = ?w"
    by (simp add: toggleHeatmap_def loadedClosure_def)
  have p2: "pageDispatch (OnPage ToggleClick) \<lparr>closures = [c, ?n], buttonDisabled = False\<rparr>
            = \<lparr>closures = [toggleHeatmap (c\<lparr>toggleDisabled := False\<rparr>), ?w], buttonDisabled = True\<rparr>"
  proof -
    have up: "[0..<2] = [0, 1]" by (simp add: upt_rec)
    have n': "?n\<lparr>toggleDisabled := toggleDisabled (toggleHeatmap (c\<lparr>toggleDisabled := False\<rparr>))\<rparr>
              \<lparr>toggleDisabled := b\<rparr> = ?n\<lparr>toggleDisabled := b\<rparr>" for b
      by simp
    have w: "toggleHeatmap (?n\<lparr>toggleDisabled := b\<rparr>) = ?w" for b
      by (simp add: toggleHeatmap_def loadedClosure_def)
    show ?thesis
      by (simp add: deliverAll_def deliver_def Let_def up w)
  qed
  have p3: "pageDispatch (Timer 1)
              \<lparr>closures = [toggleHeatmap (c\<lparr>toggleDisabled := False\<rparr>), ?w], buttonDisabled = True\<rparr>
            = \<lparr>closures = [toggleHeatmap (c\<lparr>toggleDisabled := False\<rparr>), dispatch TimeoutFires ?w],
               buttonDisabled = toggleDisabled (dispatch TimeoutFires ?w)\<rparr>"
  proof -
    have "?w\<lparr>toggleDisabled := True\<rparr> = ?w" by simp
    then show ?thesis
      by (simp add: deliver_def Let_def loadedClosure_def del: dispatch.simps)
  qed
  have r: "samplerRunsOf (dispatch TimeoutFires ?w) = 1"
    unfolding timeout_runs by (simp add: samplerRunsOf_def loadedClosure_def)
  have c': "samplerRunsOf (toggleHeatmap (c\<lparr>toggleDisabled := False\<rparr>)) = samplerRunsOf c"
    unfolding toggleHeatmap_runs by (simp add: samplerRunsOf_def)
  have "pageRun [ChangeToken d, OnPage ToggleClick, Timer 1] (pageOf c)
        = pageDispatch (Timer 1) (pageDispatch (OnPage ToggleClick) (pageDispatch (ChangeToken d) (pageOf c)))"
    by simp
  then have eq: "pageRun [ChangeToken d, OnPage ToggleClick, Timer 1] (pageOf c)
        = \<lparr>closures = [toggleHeatmap (c\<lparr>toggleDisabled := False\<rparr>), dispatch TimeoutFires ?w],
           buttonDisabled = toggleDisabled (dispatch TimeoutFires ?w)\<rparr>"
    by (simp only: p1 p2 p3)
  show ?thesis
    unfolding eq samplerRuns_def using r c' by (simp del: dispatch.simps)
qed

lemma pageRun_append: "pageRun (es @ es') p = pageRun es' (pageRun es p)"
  by (induction es arbitrary: p) simp_all

lemma loaded_generates:
  "\<exists>g. generateCoverageHeatmap (loadedClosure \<lparr>features = [centralPark]\<rparr>) = Inr (Some g)"
proof -
  have "restroomCoords [centralPark] = Inr [Some [Number (Fin (- 73.97)), Number (Fin 40.78)]]"
    by (simp add: centralPark_def)
  then show ?thesis
    by (simp add: generateCoverageHeatmap_def loadedClosure_def loopI_eq)
qed

section \<open>The claims\<close>

text \<open>
  Claim C1. With the data loaded, \<open>applyFilters\<close> (both versions of the script) shows
  exactly the features of the store that pass all four predicates of the specification:
  the search text, when not empty, occurs in the lower-cased text of name, operator and
  location type joined by single spaces, absent fields being empty; and each of status,
  accessibility and location type passes when its filter is \<open>all\<close> or equals the
  feature's value. The result is a subsequence of the store, in the store's order.
\<close>

theorem applyFilters_exact:
  assumes "allRestroomData s = Some d"
  shows "restroomsSource (applyFilters s) = filter (spec_matches (currentFilters s)) (features d) \<and>
         (\<exists>s'. applyFilters_stats s = Inr s' \<and>
               restroomsSource s' = filter (spec_matches (currentFilters s)) (features d)) \<and>
         subseq (restroomsSource (applyFilters s)) (features d)"
proof -
  have cb: "filterCallback (currentFilters s) = spec_matches (currentFilters s)"
    by (rule ext) (rule filterCallback_spec)
  have a: "restroomsSource (applyFilters s) = filter (spec_matches (currentFilters s)) (features d)"
    using assms by (simp add: applyFilters_def cb)
  have b: "\<exists>s'. applyFilters_stats s = Inr s' \<and>
               restroomsSource s' = filter (spec_matches (currentFilters s)) (features d)"
    using assms by (simp add: applyFilters_stats_def updateStatistics_def cb Let_def)
  have c: "subseq (restroomsSource (applyFilters s)) (features d)"
    unfolding a by simp
  from a b c show ?thesis by blast
qed

theorem applyFilters_exact_witness:
  "allRestroomData
     (exampleState (Some \<lparr>features = [mottHaven, centralPark, nullCoordinates]\<rparr>)
        (noFilters\<lparr>search := ''park'', accessibilityFilter := ''Fully Accessible''\<rparr>))
     = Some \<lparr>features = [mottHaven, centralPark, nullCoordinates]\<rparr> \<and>
   restroomsSource
     (applyFilters
        (exampleState (Some \<lparr>features = [mottHaven, centralPark, nullCoordinates]\<rparr>)
           (noFilters\<lparr>search := ''park'', accessibilityFilter := ''Fully Accessible''\<rparr>)))
     = [centralPark, nullCoordinates]"
  using applyFilters_exact
    [of "exampleState (Some \<lparr>features = [mottHaven, centralPark, nullCoordinates]\<rparr>)
           (noFilters\<lparr>search := ''park'', accessibilityFilter := ''Fully Accessible''\<rparr>)"
        "\<lparr>features = [mottHaven, centralPark, nullCoordinates]\<rparr>"]
  by (simp add: exampleState_def noFilters_def spec_matches_def spec_facet_def
      spec_searchableText_def includes_str_sublist [symmetric] toLowerCase_def lowerChar_def
      elemString_def centralPark_def mottHaven_def nullCoordinates_def)

text \<open>
  Claim C2, as amended. When every record carries a coordinate array whose longitude and
  latitude are numbers or absent, the sampler does not throw, and at every point the scan
  ends with the least fast planar distance over the records whose two coordinates are
  finite, \<open>Infinity\<close> when there is none; records with an absent, \<open>NaN\<close> or infinite
  coordinate never change the minimum, which is never \<open>NaN\<close>. Every cell of the grid
  carries the intensity of that minimum.
\<close>

theorem scan_skips_non_finite:
  assumes "allRestroomData s = Some d" and "\<forall>f\<in>set (features d). numericCoordinates f"
  shows "\<exists>rc cells. restroomCoords (features d) = Inr rc \<and>
           generateCoverageHeatmap s = Inr (Some cells) \<and>
           (\<forall>lat lng. nearestScan (Number (Fin lat)) (Number (Fin lng)) PosInf rc
                        = Inr (nearestValid lat lng rc) \<and>
                      nearestValid lat lng rc \<noteq> NaN) \<and>
           (\<forall>i<gridSize. \<forall>j<gridSize. cells ! (i * gridSize + j) =
              (Fin (gridLng nycBounds gridSize j), Fin (gridLat nycBounds gridSize i),
               intensityOf (nearestValid (gridLat nycBounds gridSize i)
                                         (gridLng nycBounds gridSize j) rc)))"
proof -
  from restroomCoords_numeric [OF assms(2)] obtain rc
    where rc: "restroomCoords (features d) = Inr rc" "\<forall>c\<in>set rc. numericArray c"
    by blast
  then have some: "\<forall>c\<in>set rc. c \<noteq> None" by (simp add: numericArray_Some)
  let ?cells = "concat (map (gridRow nycBounds gridSize rc) [0..<gridSize])"
  have 1: "generateCoverageHeatmap s = Inr (Some ?cells)"
    using assms(1) rc(1) some by (rule generate_grid)
  have 2: "\<forall>lat lng. nearestScan (Number (Fin lat)) (Number (Fin lng)) PosInf rc
                        = Inr (nearestValid lat lng rc) \<and>
                      nearestValid lat lng rc \<noteq> NaN"
    using rc(2) by (simp add: nearestScan_nearestValid nearestValid_def Let_def)
  have 3: "\<forall>i<gridSize. \<forall>j<gridSize. ?cells ! (i * gridSize + j) =
              (Fin (gridLng nycBounds gridSize j), Fin (gridLat nycBounds gridSize i),
               intensityOf (nearestValid (gridLat nycBounds gridSize i)
                                         (gridLng nycBounds gridSize j) rc))"
    using rc(2) by (simp add: nth_rows cellAt_def scanValue_nearestValid)
  from rc(1) 1 2 3 show ?thesis by blast
qed

theorem scan_skips_non_finite_witness:
  "allRestroomData (exampleState (Some \<lparr>features = [mottHaven, centralPark]\<rparr>) noFilters)
     = Some \<lparr>features = [mottHaven, centralPark]\<rparr> \<and>
   numericCoordinates mottHaven \<and> numericCoordinates centralPark \<and>
   restroomCoords [mottHaven, centralPark]
     = Inr [Some [Number NaN, Number (Fin 40.81)], Some [Number (Fin (- 73.97)), Number (Fin 40.78)]] \<and>
   nearestScan (Number (Fin 40.78)) (Number (Fin (- 73.97))) PosInf
     [Some [Number NaN, Number (Fin 40.81)], Some [Number (Fin (- 73.97)), Number (Fin 40.78)]]
     = Inr (Fin 0) \<and>
   (\<exists>cells. generateCoverageHeatmap
               (exampleState (Some \<lparr>features = [mottHaven, centralPark]\<rparr>) noFilters)
             = Inr (Some cells))"
proof -
  have h1: "allRestroomData (exampleState (Some \<lparr>features = [mottHaven, centralPark]\<rparr>) noFilters)
     = Some \<lparr>features = [mottHaven, centralPark]\<rparr>"
    by (simp add: exampleState_def)
  have h2: "\<forall>f\<in>set (features \<lparr>features = [mottHaven, centralPark]\<rparr>). numericCoordinates f"
    by (simp add: numericCoordinates_def numericArray_def elementAt_def centralPark_def
        mottHaven_def)
  have rc: "restroomCoords (features \<lparr>features = [mottHaven, centralPark]\<rparr>)
     = Inr [Some [Number NaN, Number (Fin 40.81)], Some [Number (Fin (- 73.97)), Number (Fin 40.78)]]"
    by (simp add: centralPark_def mottHaven_def)
  have nv: "nearestValid 40.78 (- 73.97)
     [Some [Number NaN, Number (Fin 40.81)], Some [Number (Fin (- 73.97)), Number (Fin 40.78)]]
     = Fin 0"
    by (simp add: nearestValid_def List.map_filter_simps finitePosition_def elementAt_def
        planarDistance_def)
  from scan_skips_non_finite [OF h1 h2] rc nv h1 h2 show ?thesis
    by (auto simp: centralPark_def mottHaven_def)
qed

text \<open>
  The claim as first stated also covers a record whose coordinates are \<open>null\<close> or
  missing. The scan does not skip such a record: destructuring it throws, and no grid is
  returned. (A \<open>null\<close> inside the array is not skipped either: it counts as 0.)
\<close>

theorem null_coordinates_throw:
  "generateCoverageHeatmap
     (exampleState (Some \<lparr>features = [centralPark, nullCoordinates]\<rparr>) noFilters)
   = Inl TypeError"
  by (simp add: generateCoverageHeatmap_def exampleState_def centralPark_def
      nullCoordinates_def loopI_None gridSize_def)

text \<open>
  Claim C3. The sampler returns \<open>gridSize\<close> squared cells, row \<open>i\<close> before row
  \<open>i + 1\<close> and, within a row, column \<open>j\<close> before column \<open>j + 1\<close>; cell \<open>(i, j)\<close>
  lies at latitude \<open>south + i (north - south) / N\<close> and longitude
  \<open>west + j (east - west) / N\<close>. This holds for the bounds and the size the script fixes
  and, for the loops themselves, for any bounds and any size \<open>N\<close>. The records must be
  readable by the scan (each with a coordinate array).
\<close>

theorem grid_layout:
  assumes "allRestroomData s = Some d" and "\<forall>f\<in>set (features d). hasCoordinateArray f"
  shows "\<exists>rc cells. restroomCoords (features d) = Inr rc \<and>
           generateCoverageHeatmap s = Inr (Some cells) \<and>
           length cells = gridSize * gridSize \<and>
           (\<forall>i<gridSize. \<forall>j<gridSize. \<exists>v. cells ! (i * gridSize + j) =
              (Fin (west nycBounds + real j * ((east nycBounds - west nycBounds) / real gridSize)),
               Fin (south nycBounds + real i * ((north nycBounds - south nycBounds) / real gridSize)),
               v)) \<and>
           (\<forall>b n. \<exists>pts. loopI b n rc 0 [] = Inr pts \<and> length pts = n * n \<and>
              (\<forall>i<n. \<forall>j<n. \<exists>v. pts ! (i * n + j) =
                 (Fin (west b + real j * ((east b - west b) / real n)),
                  Fin (south b + real i * ((north b - south b) / real n)), v)))"
proof -
  from restroomCoords_ok [OF assms(2)] obtain rc
    where rc: "restroomCoords (features d) = Inr rc" "\<forall>c\<in>set rc. c \<noteq> None"
    by blast
  let ?cells = "concat (map (gridRow nycBounds gridSize rc) [0..<gridSize])"
  have 1: "generateCoverageHeatmap s = Inr (Some ?cells)"
    using assms(1) rc by (rule generate_grid)
  have 2: "length ?cells = gridSize * gridSize" by (rule length_rows)
  have 3: "\<forall>i<gridSize. \<forall>j<gridSize. \<exists>v. ?cells ! (i * gridSize + j) =
              (Fin (west nycBounds + real j * ((east nycBounds - west nycBounds) / real gridSize)),
               Fin (south nycBounds + real i * ((north nycBounds - south nycBounds) / real gridSize)),
               v)"
    by (simp add: nth_rows cellAt_def gridLng_def gridLat_def)
  have 4: "\<forall>b n. \<exists>pts. loopI b n rc 0 [] = Inr pts \<and> length pts = n * n \<and>
              (\<forall>i<n. \<forall>j<n. \<exists>v. pts ! (i * n + j) =
                 (Fin (west b + real j * ((east b - west b) / real n)),
                  Fin (south b + real i * ((north b - south b) / real n)), v))"
    using loopI_layout [OF rc(2)] by (simp add: gridLng_def gridLat_def)
  from rc(1) 1 2 3 4 show ?thesis by blast
qed

theorem grid_layout_witness:
  "allRestroomData (exampleState (Some \<lparr>features = [centralPark, mottHaven]\<rparr>) noFilters)
     = Some \<lparr>features = [centralPark, mottHaven]\<rparr> \<and>
   hasCoordinateArray centralPark \<and> hasCoordinateArray mottHaven \<and>
   (\<exists>cells. generateCoverageHeatmap
               (exampleState (Some \<lparr>features = [centralPark, mottHaven]\<rparr>) noFilters)
             = Inr (Some cells) \<and>
            length cells = 10000 \<and>
            (\<exists>v. cells ! 305 = (Fin (- 74.25), Fin 40.48365, v)))"
proof -
  have h1: "allRestroomData (exampleState (Some \<lparr>features = [centralPark, mottHaven]\<rparr>) noFilters)
     = Some \<lparr>features = [centralPark, mottHaven]\<rparr>"
    by (simp add: exampleState_def)
  have h2: "\<forall>f\<in>set (features \<lparr>features = [centralPark, mottHaven]\<rparr>). hasCoordinateArray f"
    by (simp add: hasCoordinateArray_def centralPark_def mottHaven_def)
  from grid_layout [OF h1 h2] obtain cells where
    g: "generateCoverageHeatmap (exampleState (Some \<lparr>features = [centralPark, mottHaven]\<rparr>) noFilters)
        = Inr (Some cells)"
    and l: "length cells = gridSize * gridSize"
    and c: "\<forall>i<gridSize. \<forall>j<gridSize. \<exists>v. cells ! (i * gridSize + j) =
              (Fin (west nycBounds + real j * ((east nycBounds - west nycBounds) / real gridSize)),
               Fin (south nycBounds + real i * ((north nycBounds - south nycBounds) / real gridSize)),
               v)"
    by blast
  have "3 < gridSize" "5 < gridSize" by (simp_all add: gridSize_def)
  with c have "\<exists>v. cells ! (3 * gridSize + 5) =
              (Fin (west nycBounds + real 5 * ((east nycBounds - west nycBounds) / real gridSize)),
               Fin (south nycBounds + real 3 * ((north nycBounds - south nycBounds) / real gridSize)),
               v)"
    by blast
  then have "\<exists>v. cells ! 305 = (Fin (- 74.25), Fin 40.48365, v)"
    by (simp add: gridSize_def nycBounds_def)
  with h1 h2 g l show ?thesis by (simp add: gridSize_def)
qed

text \<open>
  Claim C4. Tightening one facet of the query (a categorical filter moved from \<open>all\<close>
  to a value, or the search text replaced by a longer one containing it) never makes the
  filtered list longer.
\<close>

theorem filter_monotone:
  assumes "tightens q q'"
  shows "length (restroomsSource (applyFilters (s\<lparr>currentFilters := q'\<rparr>)))
         \<le> length (restroomsSource (applyFilters (s\<lparr>currentFilters := q\<rparr>))) \<and>
         length (filter (filterCallback q') R) \<le> length (filter (filterCallback q) R)"
proof -
  have m: "length (filter (filterCallback q') xs) \<le> length (filter (filterCallback q) xs)" for xs
    using assms by (intro length_filter_mono) (simp add: filterCallback_spec spec_matches_tightens)
  have "length (restroomsSource (applyFilters (s\<lparr>currentFilters := q'\<rparr>)))
         \<le> length (restroomsSource (applyFilters (s\<lparr>currentFilters := q\<rparr>)))"
  proof (cases "allRestroomData s")
    case None
    then show ?thesis by (simp add: applyFilters_def)
  next
    case (Some d)
    with m [of "features d"] show ?thesis by (simp add: applyFilters_def)
  qed
  with m show ?thesis by blast
qed

theorem filter_monotone_witness:
  "tightens (noFilters\<lparr>search := ''park''\<rparr>) (noFilters\<lparr>search := ''parks''\<rparr>) \<and>
   length (restroomsSource (applyFilters
       (exampleState (Some \<lparr>features = [mottHaven, centralPark]\<rparr>) noFilters
          \<lparr>currentFilters := noFilters\<lparr>search := ''parks''\<rparr>\<rparr>)))
   \<le> length (restroomsSource (applyFilters
       (exampleState (Some \<lparr>features = [mottHaven, centralPark]\<rparr>) noFilters
          \<lparr>currentFilters := noFilters\<lparr>search := ''park''\<rparr>\<rparr>)))"
proof -
  have t: "tightens (noFilters\<lparr>search := ''park''\<rparr>) (noFilters\<lparr>search := ''parks''\<rparr>)"
    by (simp add: tightens_def noFilters_def includes_str_sublist [symmetric])
  show ?thesis
    using t filter_monotone [OF t, of "exampleState (Some \<lparr>features = [mottHaven, centralPark]\<rparr>) noFilters"]
    by simp
qed

text \<open>
  Claim C5. Every cell the sampler returns has an intensity between 0 and 1, for any
  records the scan can read, those with finite coordinates among them. At distance zero
  the intensity is 0; at or beyond the cutoff, and at \<open>Infinity\<close> (no record), it is 1.
\<close>

theorem intensity_bounded:
  assumes "allRestroomData s = Some d" and "\<forall>f\<in>set (features d). hasCoordinateArray f"
  shows "\<exists>cells. generateCoverageHeatmap s = Inr (Some cells) \<and>
           (\<forall>c\<in>set cells. unitInterval (intensity c)) \<and>
           intensityOf (Fin 0) = Fin 0 \<and>
           (\<forall>x\<ge>maxDistance. intensityOf (Fin x) = Fin 1) \<and>
           intensityOf PosInf = Fin 1"
proof -
  from restroomCoords_ok [OF assms(2)] obtain rc
    where rc: "restroomCoords (features d) = Inr rc" "\<forall>c\<in>set rc. c \<noteq> None"
    by blast
  let ?cells = "concat (map (gridRow nycBounds gridSize rc) [0..<gridSize])"
  have g: "generateCoverageHeatmap s = Inr (Some ?cells)"
    using assms(1) rc by (rule generate_grid)
  have u: "unitInterval (intensity c)" if "c \<in> set ?cells" for c
  proof -
    from cells_intensity [OF that] obtain i j
      where "intensity c = intensityOf (scanValue (gridLat nycBounds gridSize i) (gridLng nycBounds gridSize j) rc)"
      by blast
    then show ?thesis
      using rc(2) by (simp add: intensityOf_unit scanValue_distanceLike)
  qed
  from g u show ?thesis
    using intensityOf_zero intensityOf_saturated intensityOf_far by blast
qed

theorem intensity_bounded_witness:
  "allRestroomData (exampleState (Some \<lparr>features = [centralPark, mottHaven]\<rparr>) noFilters)
     = Some \<lparr>features = [centralPark, mottHaven]\<rparr> \<and>
   hasCoordinateArray centralPark \<and> hasCoordinateArray mottHaven \<and>
   (\<exists>cells. generateCoverageHeatmap
               (exampleState (Some \<lparr>features = [centralPark, mottHaven]\<rparr>) noFilters)
             = Inr (Some cells) \<and>
            (\<forall>c\<in>set cells. unitInterval (intensity c)))"
proof -
  have h1: "allRestroomData (exampleState (Some \<lparr>features = [centralPark, mottHaven]\<rparr>) noFilters)
     = Some \<lparr>features = [centralPark, mottHaven]\<rparr>"
    by (simp add: exampleState_def)
  have h2: "\<forall>f\<in>set (features \<lparr>features = [centralPark, mottHaven]\<rparr>). hasCoordinateArray f"
    by (simp add: hasCoordinateArray_def centralPark_def mottHaven_def)
  show ?thesis using h1 h2 intensity_bounded [OF h1 h2] by auto
qed

text \<open>
  Claim C6. With an empty collection in the store the sampler does not fail: it returns
  the full grid, and every cell has intensity 1.
\<close>

theorem empty_store_grid:
  assumes "allRestroomData s = Some d" and "features d = []"
  shows "\<exists>cells. generateCoverageHeatmap s = Inr (Some cells) \<and>
           length cells = gridSize * gridSize \<and>
           (\<forall>c\<in>set cells. intensity c = Fin 1)"
proof -
  let ?cells = "concat (map (gridRow nycBounds gridSize []) [0..<gridSize])"
  have "generateCoverageHeatmap s = Inr (Some ?cells)"
  proof (rule generate_grid [OF assms(1)])
    show "restroomCoords (features d) = Inr []" using assms(2) by simp
    show "\<forall>c\<in>set []. c \<noteq> (None :: jsval list option)" by simp
  qed
  moreover have "length ?cells = gridSize * gridSize" by (rule length_rows)
  moreover have "intensity c = Fin 1" if "c \<in> set ?cells" for c
  proof -
    from cells_intensity [OF that] obtain i j
      where "intensity c = intensityOf (scanValue (gridLat nycBounds gridSize i) (gridLng nycBounds gridSize j) [])"
      by blast
    then show ?thesis by (simp add: scanValue_def intensityOf_far)
  qed
  ultimately show ?thesis by blast
qed

theorem empty_store_grid_witness:
  "allRestroomData (exampleState (Some \<lparr>features = []\<rparr>) noFilters) = Some \<lparr>features = []\<rparr> \<and>
   features \<lparr>features = []\<rparr> = [] \<and>
   (\<exists>cells. generateCoverageHeatmap (exampleState (Some \<lparr>features = []\<rparr>) noFilters)
             = Inr (Some cells) \<and>
            length cells = 10000 \<and> (\<forall>c\<in>set cells. intensity c = Fin 1))"
proof -
  have h1: "allRestroomData (exampleState (Some \<lparr>features = []\<rparr>) noFilters) = Some \<lparr>features = []\<rparr>"
    by (simp add: exampleState_def)
  have h2: "features \<lparr>features = []\<rparr> = ([] :: feature list)"
    by simp
  show ?thesis using h1 h2 empty_store_grid [OF h1 h2] by (simp add: gridSize_def)
qed

text \<open>
  Claim C7. For a given list of features, \<open>updateStatistics\<close> shows their number, the
  number whose status is exactly \<open>Operational\<close>, the number whose accessibility is
  exactly \<open>Fully Accessible\<close> and the number whose location type is exactly \<open>Park\<close>.
\<close>

theorem updateStatistics_counts:
  "\<exists>s'. updateStatistics (Some fs) s = Inr s' \<and>
        totalVisible (statistics s') = length fs \<and>
        operationalCount (statistics s') =
          count_list (map (\<lambda>f. status (properties f)) fs) (Some ''Operational'') \<and>
        accessibleCount (statistics s') =
          count_list (map (\<lambda>f. accessibility (properties f)) fs) (Some ''Fully Accessible'') \<and>
        parkCount (statistics s') =
          count_list (map (\<lambda>f. location_type (properties f)) fs) (Some ''Park'')"
  by (simp add: updateStatistics_def Let_def length_filter_count)

text \<open>
  Claim C8. The grid depends on the store alone: two states with the same store give the
  same result of \<open>generateCoverageHeatmap\<close>, whatever their filters, their filtered
  features and the events that led to them.
\<close>

theorem coverage_ignores_query:
  assumes "allRestroomData s = allRestroomData t"
  shows "generateCoverageHeatmap s = generateCoverageHeatmap t \<and>
         generateCoverageHeatmap (applyFilters (s\<lparr>currentFilters := q\<rparr>)) = generateCoverageHeatmap t \<and>
         generateCoverageHeatmap (run es s) = generateCoverageHeatmap t"
proof (intro conjI)
  show "generateCoverageHeatmap s = generateCoverageHeatmap t"
    using assms by (rule generate_store_only)
  have "allRestroomData (applyFilters (s\<lparr>currentFilters := q\<rparr>)) = allRestroomData t"
    using assms by (simp add: applyFilters_frame)
  then show "generateCoverageHeatmap (applyFilters (s\<lparr>currentFilters := q\<rparr>)) = generateCoverageHeatmap t"
    by (rule generate_store_only)
  have "allRestroomData (run es s) = allRestroomData t"
    using assms by (simp add: run_store)
  then show "generateCoverageHeatmap (run es s) = generateCoverageHeatmap t"
    by (rule generate_store_only)
qed

theorem coverage_ignores_query_witness:
  "allRestroomData (exampleState (Some \<lparr>features = [centralPark, mottHaven]\<rparr>)
      (noFilters\<lparr>search := ''library'', statusFilter := ''Operational''\<rparr>))
   = allRestroomData (exampleState (Some \<lparr>features = [centralPark, mottHaven]\<rparr>) noFilters) \<and>
   generateCoverageHeatmap (exampleState (Some \<lparr>features = [centralPark, mottHaven]\<rparr>)
      (noFilters\<lparr>search := ''library'', statusFilter := ''Operational''\<rparr>))
   = generateCoverageHeatmap (exampleState (Some \<lparr>features = [centralPark, mottHaven]\<rparr>) noFilters)"
proof -
  have h: "allRestroomData (exampleState (Some \<lparr>features = [centralPark, mottHaven]\<rparr>)
      (noFilters\<lparr>search := ''library'', statusFilter := ''Operational''\<rparr>))
   = allRestroomData (exampleState (Some \<lparr>features = [centralPark, mottHaven]\<rparr>) noFilters)"
    by (simp add: exampleState_def)
  show ?thesis using h coverage_ignores_query [OF h] by blast
qed

text \<open>
  Claim C9, as amended. As long as \<open>initializeMap\<close> has run only once on the page (no
  change of token), the sampler runs at most once, whatever the events: the first click
  on the toggle, followed by its timer, runs it, stores the grid and shows it; once a
  grid is stored, no later event changes it or runs the sampler again, and a click that
  hides the heat map only removes it from the map. Runs of the sampler are read off the
  console, where each one leaves its first line.
\<close>

theorem coverage_grid_computed_once:
  assumes "\<forall>e\<in>set es. \<not> isChangeToken e" and "\<forall>e\<in>set es'. \<not> isChangeToken e"
  shows "samplerRuns (pageRun es (startPage data)) \<le> 1 \<and>
         (OnPage ToggleClick \<notin> set es \<and>
          generateCoverageHeatmap (loadedClosure data) = Inr (Some g) \<longrightarrow>
            map heatmapData
              (closures (pageRun (es @ [OnPage ToggleClick, Timer 0]) (startPage data))) = [Some g] \<and>
            map heatmapSource
              (closures (pageRun (es @ [OnPage ToggleClick, Timer 0]) (startPage data))) = [Some g] \<and>
            samplerRuns (pageRun (es @ [OnPage ToggleClick, Timer 0]) (startPage data)) = 1) \<and>
         (map heatmapData (closures (pageRun es (startPage data))) = [Some g] \<longrightarrow>
            map heatmapData (closures (pageRun (es @ es') (startPage data))) = [Some g] \<and>
            samplerRuns (pageRun (es @ es') (startPage data))
              = samplerRuns (pageRun es (startPage data)) \<and>
            (map isHeatmapVisible (closures (pageRun es (startPage data))) = [True] \<longrightarrow>
               map heatmapSource
                 (closures (pageDispatch (OnPage ToggleClick) (pageRun es (startPage data))))
                 = [None] \<and>
               map heatmapData
                 (closures (pageDispatch (OnPage ToggleClick) (pageRun es (startPage data))))
                 = [Some g]))"
proof -
  let ?start = "loadedClosure data"
  let ?cur = "run (closureEvents es) ?start"
  have f: "freshlyLoaded ?start" by (rule loadedClosure_fresh)
  have page: "pageRun es (startPage data) = pageOf ?cur"
    unfolding startPage_pageOf using assms(1) by (rule pageRun_pageOf)
  have A: "samplerRuns (pageRun es (startPage data)) \<le> 1"
    unfolding page samplerRuns_pageOf
    using runs_fresh [OF f, of "closureEvents es"] by (simp add: loadedClosure_runs)
  have B: "map heatmapData
              (closures (pageRun (es @ [OnPage ToggleClick, Timer 0]) (startPage data))) = [Some g] \<and>
            map heatmapSource
              (closures (pageRun (es @ [OnPage ToggleClick, Timer 0]) (startPage data))) = [Some g] \<and>
            samplerRuns (pageRun (es @ [OnPage ToggleClick, Timer 0]) (startPage data)) = 1"
    if nc: "OnPage ToggleClick \<notin> set es"
      and gen: "generateCoverageHeatmap ?start = Inr (Some g)"
  proof -
    have all: "\<forall>e\<in>set (es @ [OnPage ToggleClick, Timer 0]). \<not> isChangeToken e"
      using assms(1) by simp
    have page': "pageRun (es @ [OnPage ToggleClick, Timer 0]) (startPage data)
                 = pageOf (run [ToggleClick, TimeoutFires] ?cur)"
      unfolding startPage_pageOf pageRun_pageOf [OF all]
      by (simp add: closureEvents_append run_append)
    from nc have nc': "ToggleClick \<notin> set (closureEvents es)" by (rule closureEvents_no_click)
    have fc: "freshlyLoaded ?cur" using f nc' by (simp add: run_fresh_other)
    have "generateCoverageHeatmap ?cur = generateCoverageHeatmap ?start"
      by (rule generate_store_only) (rule run_store)
    with gen have gc: "generateCoverageHeatmap ?cur = Inr (Some g)" by simp
    have "samplerRunsOf ?cur = 0"
      using run_fresh_runs [OF f nc'] by (simp add: loadedClosure_runs)
    with first_toggle_caches [OF fc gc] show ?thesis
      unfolding page' by (simp add: pageOf_def samplerRuns_def)
  qed
  have C: "map heatmapData (closures (pageRun (es @ es') (startPage data))) = [Some g] \<and>
            samplerRuns (pageRun (es @ es') (startPage data))
              = samplerRuns (pageRun es (startPage data)) \<and>
            (map isHeatmapVisible (closures (pageRun es (startPage data))) = [True] \<longrightarrow>
               map heatmapSource
                 (closures (pageDispatch (OnPage ToggleClick) (pageRun es (startPage data))))
                 = [None] \<and>
               map heatmapData
                 (closures (pageDispatch (OnPage ToggleClick) (pageRun es (startPage data))))
                 = [Some g])"
    if h: "map heatmapData (closures (pageRun es (startPage data))) = [Some g]"
  proof -
    from h have hd: "heatmapData ?cur = Some g"
      unfolding page by (simp add: pageOf_def)
    have "freshlyLoaded ?cur \<or> waiting ?cur \<or> cached ?cur \<or> stuck ?cur"
      using f by (intro run_phases) simp
    then have c: "cached ?cur" using hd by (rule Some_cached)
    have all: "\<forall>e\<in>set (es @ es'). \<not> isChangeToken e"
      using assms by auto
    have page': "pageRun (es @ es') (startPage data) = pageOf (run (closureEvents es') ?cur)"
      unfolding startPage_pageOf pageRun_pageOf [OF all]
      by (simp add: closureEvents_append run_append)
    have 1: "map heatmapData (closures (pageRun (es @ es') (startPage data))) = [Some g]"
      unfolding page' using run_cached [OF c, of "closureEvents es'"] hd
      by (simp add: pageOf_def)
    have 2: "samplerRuns (pageRun (es @ es') (startPage data))
              = samplerRuns (pageRun es (startPage data))"
      unfolding page' page samplerRuns_pageOf
      using run_cached [OF c, of "closureEvents es'"] by simp
    have 3: "map heatmapSource
                 (closures (pageDispatch (OnPage ToggleClick) (pageRun es (startPage data))))
                 = [None] \<and>
               map heatmapData
                 (closures (pageDispatch (OnPage ToggleClick) (pageRun es (startPage data))))
                 = [Some g]"
      if v: "map isHeatmapVisible (closures (pageRun es (startPage data))) = [True]"
    proof -
      from v have vis: "isHeatmapVisible ?cur" unfolding page by (simp add: pageOf_def)
      have "pageDispatch (OnPage ToggleClick) (pageOf ?cur) = pageOf (dispatch ToggleClick ?cur)"
        using pageRun_pageOf [of "[OnPage ToggleClick]" ?cur] by simp
      with toggle_off_cached [OF c vis] hd show ?thesis
        unfolding page by (simp add: pageOf_def)
    qed
    from 1 2 3 show ?thesis by blast
  qed
  from A B C show ?thesis by blast
qed

theorem coverage_grid_computed_once_witness:
  "\<not> isChangeToken (OnPage ToggleClick) \<and> \<not> isChangeToken (Timer 0) \<and>
   \<not> isChangeToken (OnPage (SearchInput ''Park'')) \<and>
   samplerRuns
     (pageRun [OnPage ToggleClick, Timer 0, OnPage ToggleClick, OnPage (SearchInput ''Park''),
               OnPage ToggleClick, Timer 0]
        (startPage \<lparr>features = [centralPark]\<rparr>)) \<le> 1 \<and>
   (\<exists>g. generateCoverageHeatmap (loadedClosure \<lparr>features = [centralPark]\<rparr>) = Inr (Some g) \<and>
        map heatmapData
          (closures (pageRun [OnPage ToggleClick, Timer 0] (startPage \<lparr>features = [centralPark]\<rparr>)))
          = [Some g] \<and>
        samplerRuns (pageRun [OnPage ToggleClick, Timer 0] (startPage \<lparr>features = [centralPark]\<rparr>))
          = 1 \<and>
        map heatmapData
          (closures
             (pageRun [OnPage ToggleClick, Timer 0, OnPage ToggleClick,
                       OnPage (SearchInput ''Park''), OnPage ToggleClick, Timer 0]
                (startPage \<lparr>features = [centralPark]\<rparr>)))
          = [Some g])"
proof -
  let ?d = "\<lparr>features = [centralPark]\<rparr>"
  let ?first = "[OnPage ToggleClick, Timer 0]"
  let ?later = "[OnPage ToggleClick, OnPage (SearchInput ''Park''), OnPage ToggleClick, Timer 0]"
  have n0: "\<forall>e\<in>set ([] :: pageEvent list). \<not> isChangeToken e" by simp
  have n1: "\<forall>e\<in>set ?first. \<not> isChangeToken e" by simp
  have n2: "\<forall>e\<in>set ?later. \<not> isChangeToken e" by simp
  have n3: "\<forall>e\<in>set (?first @ ?later). \<not> isChangeToken e" by simp
  from loaded_generates obtain g
    where g: "generateCoverageHeatmap (loadedClosure ?d) = Inr (Some g)"
    by blast
  have first: "map heatmapData (closures (pageRun ?first (startPage ?d))) = [Some g]"
    and one: "samplerRuns (pageRun ?first (startPage ?d)) = 1"
    using coverage_grid_computed_once [OF n0 n0, of ?d g] g by simp_all
  have later: "map heatmapData (closures (pageRun (?first @ ?later) (startPage ?d))) = [Some g]"
    using coverage_grid_computed_once [OF n1 n2, of ?d g] first by blast
  have once: "samplerRuns (pageRun (?first @ ?later) (startPage ?d)) \<le> 1"
    using coverage_grid_computed_once [OF n3 n0, of ?d g] by blast
  from g first one later once show ?thesis by auto
qed

text \<open>
  The claim as first stated speaks of the whole process. The stored grid belongs to one
  run of \<open>initializeMap\<close>: after a change of token the new run starts with none, and
  the next click on the toggle runs the sampler a second time on the same page.
\<close>

theorem token_change_recomputes:
  "samplerRuns
     (pageRun [OnPage ToggleClick, Timer 0, ChangeToken \<lparr>features = [centralPark]\<rparr>,
               OnPage ToggleClick, Timer 1]
        (startPage \<lparr>features = [centralPark]\<rparr>)) = 2"
proof -
  let ?d = "\<lparr>features = [centralPark]\<rparr>"
  let ?n = "loadedClosure ?d"
  let ?cur = "run [ToggleClick, TimeoutFires] ?n"
  from loaded_generates obtain g where g: "generateCoverageHeatmap ?n = Inr (Some g)"
    by blast
  have f: "freshlyLoaded ?n" by (rule loadedClosure_fresh)
  have "\<forall>e\<in>set [OnPage ToggleClick, Timer 0]. \<not> isChangeToken e" by simp
  then have "pageRun [OnPage ToggleClick, Timer 0] (pageOf ?n)
             = pageOf (run (closureEvents [OnPage ToggleClick, Timer 0]) ?n)"
    by (rule pageRun_pageOf)
  then have first: "pageRun [OnPage ToggleClick, Timer 0] (startPage ?d) = pageOf ?cur"
    by (simp only: startPage_pageOf closureEvents.simps)
  have hd: "heatmapData ?cur = Some g" and runs: "samplerRunsOf ?cur = 1"
    using first_toggle_caches [OF f g] by (simp_all add: loadedClosure_runs)
  have "freshlyLoaded ?cur \<or> waiting ?cur \<or> cached ?cur \<or> stuck ?cur"
    using f by (intro run_phases) simp
  then have "cached ?cur" using hd by (rule Some_cached)
  then have en: "\<not> toggleDisabled ?cur" by (simp add: cached_def)
  have "pageRun ([OnPage ToggleClick, Timer 0] @ [ChangeToken ?d, OnPage ToggleClick, Timer 1])
          (startPage ?d)
        = pageRun [ChangeToken ?d, OnPage ToggleClick, Timer 1] (pageOf ?cur)"
    by (simp only: pageRun_append first)
  then have "samplerRuns
     (pageRun ([OnPage ToggleClick, Timer 0] @ [ChangeToken ?d, OnPage ToggleClick, Timer 1])
        (startPage ?d)) = 2"
    using second_closure_samples [OF en, of ?d] runs by simp
  then show ?thesis by simp
qed

text \<open>
  Claim C10. While the store is still \<open>null\<close>, \<open>applyFilters\<close> (both versions) returns
  at once and leaves the state as it is, and \<open>generateCoverageHeatmap\<close> returns
  \<open>undefined\<close>; it assigns to no variable in any case.
\<close>

theorem null_store_noop:
  assumes "allRestroomData s = None"
  shows "applyFilters s = s \<and> applyFilters_stats s = Inr s \<and> generateCoverageHeatmap s = Inr None"
  using assms by (simp add: applyFilters_def applyFilters_stats_def generateCoverageHeatmap_def)

theorem null_store_noop_witness:
  "allRestroomData (exampleState None noFilters) = None \<and>
   applyFilters (exampleState None noFilters) = exampleState None noFilters \<and>
   applyFilters_stats (exampleState None noFilters) = Inr (exampleState None noFilters) \<and>
   generateCoverageHeatmap (exampleState None noFilters) = Inr None"
proof -
  have h: "allRestroomData (exampleState None noFilters) = None"
    by (simp add: exampleState_def)
  show ?thesis using h null_store_noop [OF h] by simp
qed

end
